theory Spec2Isabelle
  imports Main "HOL-Library.Word"
begin

section \<open>Zone transfers (xfr.go): data model\<close>

text \<open>
  The embedding follows \<^verbatim>\<open>src/xfr.go\<close>. Go slices are lists (a nil slice is the empty
  list: \<^verbatim>\<open>len\<close>, \<^verbatim>\<open>append\<close> and \<^verbatim>\<open>range\<close> do not tell them apart), a nil
  pointer or nil map is \<open>None\<close>, a nil \<^verbatim>\<open>error\<close> is \<open>None\<close>. Run-time panics
  (nil dereference, index out of range, failed type assertion) are values of the model.
\<close>

type_synonym bytes = "8 word list"

datatype error = ErrId | ErrSoa | ErrSecret | ErrExt string
  \<comment> \<open>\<open>ErrExt\<close>: any error produced by a collaborator (network, codec, TSIG)\<close>

datatype panic = NilDereference | IndexOutOfRange | TypeAssertion

record RR_Header =
  Name :: string
  Rrtype :: "16 word"

text \<open>
  The types \<^verbatim>\<open>RR_Header\<close>, \<^verbatim>\<open>RR\<close>, \<^verbatim>\<open>Question\<close>, \<^verbatim>\<open>Msg\<close> and \<^verbatim>\<open>Conn\<close> are declared
  in other files of the package; they are given with the fields that xfr.go uses.
  \<^verbatim>\<open>RR\<close> is an interface. Only two things are asked of a record in this file: its header
  (\<^verbatim>\<open>Header().Rrtype\<close>) and whether its dynamic type is \<^verbatim>\<open>*SOA\<close> (with its
  \<^verbatim>\<open>Serial\<close>). Every other concrete record type is \<open>OtherRR\<close>.
\<close>

datatype RR = SOA RR_Header "32 word" | OtherRR RR_Header

fun Header :: "RR \<Rightarrow> RR_Header" where
  "Header (SOA h s) = h"
| "Header (OtherRR h) = h"

text \<open>The type assertion \<^verbatim>\<open>rr.(*SOA)\<close>, giving the serial of the record when it holds.\<close>

fun as_SOA :: "RR \<Rightarrow> 32 word option" where
  "as_SOA (SOA h s) = Some s"
| "as_SOA (OtherRR h) = None"

text \<open>
  Modelled from the spec: the record type codes \<^verbatim>\<open>TypeSOA\<close>, \<^verbatim>\<open>TypeIXFR\<close> and
  \<^verbatim>\<open>TypeAXFR\<close> are declared in another file of the package, not under src/; they have
  the values of the DNS protocol. Only their being distinct matters below.
\<close>

definition TypeSOA :: "16 word" where "TypeSOA = 6"
definition TypeIXFR :: "16 word" where "TypeIXFR = 251"
definition TypeAXFR :: "16 word" where "TypeAXFR = 252"

text \<open>
  Modelled from the spec: \<^verbatim>\<open>dnsTimeout\<close> is declared in another file of the package, not
  under src/; it is the default of every timeout, two seconds, in nanoseconds
  (\<^verbatim>\<open>2 * 1e9\<close> in the comments of the \<^verbatim>\<open>Transfer\<close> fields).
\<close>

definition dnsTimeout :: int where "dnsTimeout = 2 * 10 ^ 9"

record Question =
  Qname :: string
  Qtype :: "16 word"

record Msg =
  MsgId :: "16 word"
  Response :: bool
  Authoritative :: bool
  Question :: "Question list"
  Answer :: "RR list"
  Extra :: "RR list"

record Envelope =
  RR :: "RR list"
  Error :: "error option"

text \<open>
  \<^verbatim>\<open>Transfer\<close> embeds \<^verbatim>\<open>*Conn\<close>; \<open>tsigRequestMAC\<close> is the field of the embedded
  connection that the file reads and writes as \<^verbatim>\<open>t.tsigRequestMAC\<close>.
\<close>

record Transfer =
  DialTimeout :: int
  ReadTimeout :: int
  WriteTimeout :: int
  TsigSecret :: "(string \<rightharpoonup> string) option"
  tsigTimersOnly :: bool
  tsigRequestMAC :: string

text \<open>
  The functions of the package that xfr.go calls and that live in other files: the wire
  codec, the TSIG lookup on a message and the TSIG primitives. They are parameters of the
  model. \<open>IsTsig\<close> gives the owner name \<^verbatim>\<open>ts.Hdr.Name\<close> of the message's TSIG record,
  \<open>None\<close> for nil.
\<close>

record collab =
  Unpack :: "bytes \<Rightarrow> error + Msg"
  Pack :: "Msg \<Rightarrow> bytes \<times> error option"
  IsTsig :: "Msg \<Rightarrow> string option"
  TsigVerify :: "bytes \<Rightarrow> string \<Rightarrow> string \<Rightarrow> bool \<Rightarrow> error option"
  TsigGenerate :: "Msg \<Rightarrow> string \<Rightarrow> string \<Rightarrow> bool \<Rightarrow> bytes \<times> string \<times> error option"

text \<open>
  What the task does to the connection and to the envelope channel, in order.
  \<open>EvReadMsg b\<close> is one call of \<^verbatim>\<open>ReadMsg\<close> (one \<^verbatim>\<open>Read\<close> on the connection), made
  while \<^verbatim>\<open>t.tsigTimersOnly\<close> is \<open>b\<close>.
\<close>

datatype event =
    EvDial string int
  | EvSetReadDeadline int
  | EvSetWriteDeadline int
  | EvReadMsg bool
  | EvWrite bytes
  | EvSend Envelope
  | EvCloseChan
  | EvCloseConn

datatype status = Running | Returned | Panicked panic

text \<open>
  One \<^verbatim>\<open>Read\<close> on the connection gives the bytes \<^verbatim>\<open>p[:n]\<close> and an error.
\<close>

type_synonym rawread = "bytes \<times> error option"

section \<open>The authenticated message channel\<close>

definition ReadMsg :: "collab \<Rightarrow> Transfer \<Rightarrow> rawread \<Rightarrow> Msg option \<times> error option" where
  "ReadMsg cb t r =
     (case r of (p, err) \<Rightarrow>
        if err \<noteq> None \<and> length p = 0 then (None, err)
        else (case Unpack cb p of
                Inl e \<Rightarrow> (None, Some e)
              | Inr m \<Rightarrow>
                  (case IsTsig cb m of
                     None \<Rightarrow> (Some m, err)
                   | Some name \<Rightarrow>
                       (case TsigSecret t of
                          None \<Rightarrow> (Some m, err)
                        | Some secrets \<Rightarrow>
                            (case secrets name of
                               None \<Rightarrow> (Some m, Some ErrSecret)
                             | Some secret \<Rightarrow>
                                 (Some m, TsigVerify cb p secret (tsigRequestMAC t)
                                            (tsigTimersOnly t)))))))"

text \<open>
  \<open>WriteMsg\<close> gets the outcome \<open>wres\<close> of the \<^verbatim>\<open>Write\<close> on the connection, should it
  come to it, and returns the session, the error and the calls made on the connection.
\<close>

definition write_out :: "Transfer \<Rightarrow> bytes \<Rightarrow> error option \<Rightarrow> error option \<Rightarrow>
    Transfer \<times> error option \<times> event list" where
  "write_out t out err wres =
     (case err of
        Some e \<Rightarrow> (t, Some e, [])
      | None \<Rightarrow> (t, wres, [EvWrite out]))"

definition WriteMsg :: "collab \<Rightarrow> Transfer \<Rightarrow> Msg \<Rightarrow> error option \<Rightarrow>
    Transfer \<times> error option \<times> event list" where
  "WriteMsg cb t m wres =
     (case IsTsig cb m of
        None \<Rightarrow> (case Pack cb m of (out, err) \<Rightarrow> write_out t out err wres)
      | Some name \<Rightarrow>
          (case TsigSecret t of
             None \<Rightarrow> (case Pack cb m of (out, err) \<Rightarrow> write_out t out err wres)
           | Some secrets \<Rightarrow>
               (case secrets name of
                  None \<Rightarrow> (t, Some ErrSecret, [])
                | Some secret \<Rightarrow>
                    (case TsigGenerate cb m secret (tsigRequestMAC t) (tsigTimersOnly t) of
                       (out, mac, err) \<Rightarrow>
                         write_out (t\<lparr>tsigRequestMAC := mac\<rparr>) out err wres))))"

definition isSOAFirst :: "Msg \<Rightarrow> bool" where
  "isSOAFirst m =
     (if length (Answer m) > 0 then Rrtype (Header (Answer m ! 0)) = TypeSOA else False)"

definition isSOALast :: "Msg \<Rightarrow> bool" where
  "isSOALast m =
     (if length (Answer m) > 0
      then Rrtype (Header (Answer m ! (length (Answer m) - 1))) = TypeSOA else False)"

section \<open>The inbound state machines\<close>

text \<open>
  One pass through the body of a \<^verbatim>\<open>for\<close> loop: it goes round again with new locals,
  returns, or panics. Each carries the session and the calls made.
\<close>

datatype 'l iter =
    Continue 'l Transfer "event list"
  | Return Transfer "event list"
  | Panic panic Transfer "event list"

record outcome =
  session :: Transfer
  trace :: "event list"
  status :: status

text \<open>
  Both state machines register \<^verbatim>\<open>defer t.Close()\<close> and then \<^verbatim>\<open>defer close(c)\<close>.
  Deferred calls run last-in first-out when the function returns or panics.
\<close>

definition deferred :: "event list" where
  "deferred = [EvCloseChan, EvCloseConn]"

definition read_timeout :: "Transfer \<Rightarrow> int" where
  "read_timeout t = (if ReadTimeout t \<noteq> 0 then ReadTimeout t else dnsTimeout)"

text \<open>
  The body of the loop of \<^verbatim>\<open>inAxfr\<close>; the local is \<open>first\<close>. \<open>axfr_tail\<close> is
  the block under \<^verbatim>\<open>if !first\<close>, reached with \<open>first\<close> false.
\<close>

definition axfr_tail :: "Transfer \<Rightarrow> Msg \<Rightarrow> event list \<Rightarrow> bool iter" where
  "axfr_tail t m pre =
     (let t' = t\<lparr>tsigTimersOnly := True\<rparr> in
      if isSOALast m then Return t' (pre @ [EvSend \<lparr>RR = Answer m, Error = None\<rparr>])
      else Continue False t' (pre @ [EvSend \<lparr>RR = Answer m, Error = None\<rparr>]))"

definition axfr_body :: "collab \<Rightarrow> 16 word \<Rightarrow> int \<Rightarrow> bool \<Rightarrow> Transfer \<Rightarrow> rawread \<Rightarrow> bool iter" where
  "axfr_body cb qid timeout first t r =
     (let pre = [EvSetReadDeadline timeout, EvReadMsg (tsigTimersOnly t)] in
      case ReadMsg cb t r of
        (_, Some err) \<Rightarrow> Return t (pre @ [EvSend \<lparr>RR = [], Error = Some err\<rparr>])
      | (None, None) \<Rightarrow> Panic NilDereference t pre
      | (Some m, None) \<Rightarrow>
          if qid \<noteq> MsgId m then Return t (pre @ [EvSend \<lparr>RR = Answer m, Error = Some ErrId\<rparr>])
          else if first then
            (if \<not> isSOAFirst m
               then Return t (pre @ [EvSend \<lparr>RR = Answer m, Error = Some ErrSoa\<rparr>])
             else if length (Answer m) = 1
               then Continue False (t\<lparr>tsigTimersOnly := True\<rparr>)
                      (pre @ [EvSend \<lparr>RR = Answer m, Error = None\<rparr>])
             else axfr_tail t m pre)
          else axfr_tail t m pre)"

text \<open>
  The loop reads until it returns. The list holds the outcomes of the reads that have
  completed; when it is used up the task is blocked in the next read (\<open>Running\<close>).
\<close>

fun axfr_loop :: "collab \<Rightarrow> 16 word \<Rightarrow> int \<Rightarrow> bool \<Rightarrow> Transfer \<Rightarrow> rawread list \<Rightarrow> outcome" where
  "axfr_loop cb qid timeout first t [] = \<lparr>session = t, trace = [], status = Running\<rparr>"
| "axfr_loop cb qid timeout first t (r # rs) =
     (case axfr_body cb qid timeout first t r of
        Continue first' t' evs \<Rightarrow>
          (let out = axfr_loop cb qid timeout first' t' rs in out\<lparr>trace := evs @ trace out\<rparr>)
      | Return t' evs \<Rightarrow> \<lparr>session = t', trace = evs @ deferred, status = Returned\<rparr>
      | Panic p t' evs \<Rightarrow> \<lparr>session = t', trace = evs @ deferred, status = Panicked p\<rparr>)"

definition inAxfr :: "collab \<Rightarrow> Transfer \<Rightarrow> 16 word \<Rightarrow> rawread list \<Rightarrow> outcome" where
  "inAxfr cb t qid rs = axfr_loop cb qid (read_timeout t) True t rs"

text \<open>The body of the loop of \<^verbatim>\<open>inIxfr\<close>; the locals are \<open>serial\<close> and \<open>first\<close>.\<close>

definition ixfr_tail :: "32 word \<Rightarrow> Transfer \<Rightarrow> Msg \<Rightarrow> event list \<Rightarrow> (32 word \<times> bool) iter" where
  "ixfr_tail serial t m pre =
     (let t' = t\<lparr>tsigTimersOnly := True\<rparr> in
      if length (Answer m) = 0 then Panic IndexOutOfRange t' pre
      else (case as_SOA (Answer m ! (length (Answer m) - 1)) of
              Some v \<Rightarrow>
                if v = serial then Return t' (pre @ [EvSend \<lparr>RR = Answer m, Error = None\<rparr>])
                else Continue (serial, False) t' (pre @ [EvSend \<lparr>RR = Answer m, Error = None\<rparr>])
            | None \<Rightarrow> Continue (serial, False) t' (pre @ [EvSend \<lparr>RR = Answer m, Error = None\<rparr>])))"

fun ixfr_body :: "collab \<Rightarrow> 16 word \<Rightarrow> int \<Rightarrow> 32 word \<times> bool \<Rightarrow> Transfer \<Rightarrow> rawread \<Rightarrow>
    (32 word \<times> bool) iter" where
  "ixfr_body cb qid timeout (serial, first) t r =
     (let pre = [EvSetReadDeadline timeout, EvReadMsg (tsigTimersOnly t)] in
      case ReadMsg cb t r of
        (None, Some err) \<Rightarrow> Panic NilDereference t pre
      | (Some m, Some err) \<Rightarrow> Return t (pre @ [EvSend \<lparr>RR = Answer m, Error = Some err\<rparr>])
      | (None, None) \<Rightarrow> Panic NilDereference t pre
      | (Some m, None) \<Rightarrow>
          if qid \<noteq> MsgId m then Return t (pre @ [EvSend \<lparr>RR = Answer m, Error = Some ErrId\<rparr>])
          else if first then
            (if length (Answer m) = 1 \<and> isSOAFirst m
               then Return t (pre @ [EvSend \<lparr>RR = Answer m, Error = None\<rparr>])
             else if \<not> isSOAFirst m
               then Return t (pre @ [EvSend \<lparr>RR = Answer m, Error = Some ErrSoa\<rparr>])
             else (case as_SOA (Answer m ! 0) of
                     None \<Rightarrow> Panic TypeAssertion t pre
                   | Some s \<Rightarrow> ixfr_tail s t m pre))
          else ixfr_tail serial t m pre)"

fun ixfr_loop :: "collab \<Rightarrow> 16 word \<Rightarrow> int \<Rightarrow> 32 word \<times> bool \<Rightarrow> Transfer \<Rightarrow> rawread list \<Rightarrow> outcome" where
  "ixfr_loop cb qid timeout l t [] = \<lparr>session = t, trace = [], status = Running\<rparr>"
| "ixfr_loop cb qid timeout l t (r # rs) =
     (case ixfr_body cb qid timeout l t r of
        Continue l' t' evs \<Rightarrow>
          (let out = ixfr_loop cb qid timeout l' t' rs in out\<lparr>trace := evs @ trace out\<rparr>)
      | Return t' evs \<Rightarrow> \<lparr>session = t', trace = evs @ deferred, status = Returned\<rparr>
      | Panic p t' evs \<Rightarrow> \<lparr>session = t', trace = evs @ deferred, status = Panicked p\<rparr>)"

definition inIxfr :: "collab \<Rightarrow> Transfer \<Rightarrow> 16 word \<Rightarrow> rawread list \<Rightarrow> outcome" where
  "inIxfr cb t qid rs = ixfr_loop cb qid (read_timeout t) (0, True) t rs"

section \<open>The inbound entry call\<close>

text \<open>
  What the goroutine started by \<^verbatim>\<open>In\<close> goes on to do: nothing was started (\<^verbatim>\<open>In\<close>
  returned an error), it starts neither state machine, it starts one of them with the
  query's id, or it panics on \<^verbatim>\<open>q.Question[0]\<close>.
\<close>

datatype task = NotStarted | NoMachine | RunAxfr "16 word" | RunIxfr "16 word" | TaskPanic panic

record in_result =
  in_session :: Transfer
  in_env :: bool
  in_err :: "error option"
  in_trace :: "event list"
  in_task :: task

definition select_machine :: "Msg \<Rightarrow> task" where
  "select_machine q =
     (case Question q of
        [] \<Rightarrow> TaskPanic IndexOutOfRange
      | q0 # _ \<Rightarrow>
          if Qtype q0 = TypeAXFR then RunAxfr (MsgId q)
          else if Qtype q0 = TypeIXFR then RunIxfr (MsgId q)
          else NoMachine)"

text \<open>
  \<open>In\<close> gets the outcome of the dial and of the write of the query. \<^verbatim>\<open>t.Conn = new(Conn)\<close>
  gives the session a fresh connection, whose \<open>tsigRequestMAC\<close> is empty. \<open>in_env\<close>
  says whether a channel is returned.
\<close>

definition In :: "collab \<Rightarrow> Transfer \<Rightarrow> Msg \<Rightarrow> string \<Rightarrow> error option \<Rightarrow> error option \<Rightarrow> in_result" where
  "In cb t q a dial wres =
     (let t0 = t\<lparr>tsigRequestMAC := []\<rparr>;
          timeout = (if DialTimeout t \<noteq> 0 then DialTimeout t else dnsTimeout) in
      case dial of
        Some e \<Rightarrow> \<lparr>in_session = t0, in_env = False, in_err = Some e,
                  in_trace = [EvDial a timeout], in_task = NotStarted\<rparr>
      | None \<Rightarrow>
          (case WriteMsg cb t0 q wres of
             (t1, Some e, evs) \<Rightarrow>
               \<lparr>in_session = t1, in_env = False, in_err = Some e,
                in_trace = EvDial a timeout # evs, in_task = NotStarted\<rparr>
           | (t1, None, evs) \<Rightarrow>
               \<lparr>in_session = t1, in_env = True, in_err = None,
                in_trace = EvDial a timeout # evs, in_task = select_machine q\<rparr>))"

definition run_task :: "collab \<Rightarrow> Transfer \<Rightarrow> task \<Rightarrow> rawread list \<Rightarrow> outcome" where
  "run_task cb t k rs =
     (case k of
        NotStarted \<Rightarrow> \<lparr>session = t, trace = [], status = Returned\<rparr>
      | NoMachine \<Rightarrow> \<lparr>session = t, trace = [], status = Returned\<rparr>
      | RunAxfr qid \<Rightarrow> inAxfr cb t qid rs
      | RunIxfr qid \<Rightarrow> inIxfr cb t qid rs
      | TaskPanic p \<Rightarrow> \<lparr>session = t, trace = [], status = Panicked p\<rparr>)"

text \<open>
  A whole inbound transfer: the entry call, then its task on the reads \<open>rs\<close> that the
  connection completes. The trace is that of the call followed by that of the task.
\<close>

definition transfer_in :: "collab \<Rightarrow> Transfer \<Rightarrow> Msg \<Rightarrow> string \<Rightarrow> error option \<Rightarrow> error option \<Rightarrow>
    rawread list \<Rightarrow> in_result \<times> outcome" where
  "transfer_in cb t q a dial wres rs =
     (let r = In cb t q a dial wres;
          out = run_task cb (in_session r) (in_task r) rs
      in (r, out\<lparr>trace := in_trace r @ trace out\<rparr>))"

section \<open>The outbound engine\<close>

text \<open>The calls the engine can make on the \<^verbatim>\<open>ResponseWriter\<close>.\<close>

datatype wevent = WWriteMsg Msg | WTsigTimersOnly bool | WClose | WHijack

record out_outcome =
  reply :: Msg
  wtrace :: "wevent list"
  wstatus :: status

definition new_Msg :: Msg where
  "new_Msg = \<lparr>MsgId = 0, Response = False, Authoritative = False, Question = [],
              Answer = [], Extra = []\<rparr>"

text \<open>
  Modelled from the spec: \<^verbatim>\<open>SetReply\<close> (msg.go, not under src/) builds the reply header
  from the query; it leaves the answer section alone.
\<close>

definition SetReply :: "Msg \<Rightarrow> Msg \<Rightarrow> Msg" where
  "SetReply r q = r\<lparr>MsgId := MsgId q, Response := True, Question := take 1 (Question q)\<rparr>"

text \<open>
  The goroutine of \<^verbatim>\<open>Out\<close>: \<^verbatim>\<open>for x := range ch\<close> over the envelopes \<open>xs\<close> that the
  channel delivers; \<open>closed\<close> says whether the producer then closes it (the task is
  blocked on the channel otherwise). \<open>wres k\<close> is the outcome of the \<open>k\<close>-th call of
  \<^verbatim>\<open>w.WriteMsg\<close>, counted from \<open>0\<close>.
\<close>

fun out_loop :: "(nat \<Rightarrow> error option) \<Rightarrow> nat \<Rightarrow> Msg \<Rightarrow> Envelope list \<Rightarrow> bool \<Rightarrow> out_outcome" where
  "out_loop wres k r [] closed =
     (if closed then \<lparr>reply = r\<lparr>Answer := []\<rparr>, wtrace = [WTsigTimersOnly True], wstatus = Returned\<rparr>
      else \<lparr>reply = r, wtrace = [], wstatus = Running\<rparr>)"
| "out_loop wres k r (x # xs) closed =
     (let r' = r\<lparr>Answer := Answer r @ RR x\<rparr> in
      case wres k of
        Some e \<Rightarrow> \<lparr>reply = r', wtrace = [WWriteMsg r'], wstatus = Returned\<rparr>
      | None \<Rightarrow>
          (let out = out_loop wres (Suc k) r' xs closed in out\<lparr>wtrace := WWriteMsg r' # wtrace out\<rparr>))"

text \<open>\<^verbatim>\<open>Out\<close> returns nil at once; the second component is what its goroutine does.\<close>

definition Out :: "(nat \<Rightarrow> error option) \<Rightarrow> Msg \<Rightarrow> Envelope list \<Rightarrow> bool \<Rightarrow> error option \<times> out_outcome" where
  "Out wres q xs closed =
     (let r = (SetReply new_Msg q)\<lparr>Authoritative := True\<rparr>
      in (None, out_loop wres 0 r xs closed))"

section \<open>Reading a trace\<close>

text \<open>The parts of one pass through a loop body.\<close>

fun iter_events :: "'l iter \<Rightarrow> event list" where
  "iter_events (Continue l t evs) = evs"
| "iter_events (Return t evs) = evs"
| "iter_events (Panic p t evs) = evs"

fun iter_session :: "'l iter \<Rightarrow> Transfer" where
  "iter_session (Continue l t evs) = t"
| "iter_session (Return t evs) = t"
| "iter_session (Panic p t evs) = t"

fun sends :: "event list \<Rightarrow> Envelope list" where
  "sends [] = []"
| "sends (EvSend x # evs) = x # sends evs"
| "sends (_ # evs) = sends evs"

fun read_flags :: "event list \<Rightarrow> bool list" where
  "read_flags [] = []"
| "read_flags (EvReadMsg b # evs) = b # read_flags evs"
| "read_flags (_ # evs) = read_flags evs"

definition closes :: "event list \<Rightarrow> event list" where
  "closes evs = filter (\<lambda>e. e = EvCloseChan \<or> e = EvCloseConn) evs"

definition ok_env :: "Msg \<Rightarrow> Envelope" where
  "ok_env m = \<lparr>RR = Answer m, Error = None\<rparr>"

text \<open>
  The read \<open>r\<close> delivers the message \<open>m\<close> to the session \<open>t\<close>: \<^verbatim>\<open>ReadMsg\<close>, called
  in the session as it is then (its secrets, last MAC and timers-only flag), returns
  \<open>m\<close> with a nil error.
\<close>

definition delivers :: "collab \<Rightarrow> Transfer \<Rightarrow> rawread \<Rightarrow> Msg \<Rightarrow> bool" where
  "delivers cb t r m = (ReadMsg cb t r = (Some m, None))"

fun write_deadlines :: "event list \<Rightarrow> int list" where
  "write_deadlines [] = []"
| "write_deadlines (EvSetWriteDeadline d # evs) = d # write_deadlines evs"
| "write_deadlines (_ # evs) = write_deadlines evs"

section \<open>Notions used in the statements\<close>

text \<open>
  The elements of a list up to the first that satisfies \<open>P\<close>, that one included: the
  messages a state machine handles when it stops at the first message with \<open>P\<close>.
\<close>

fun upto_first :: "('a \<Rightarrow> bool) \<Rightarrow> 'a list \<Rightarrow> 'a list" where
  "upto_first P [] = []"
| "upto_first P (x # xs) = (if P x then [x] else x # upto_first P xs)"

text \<open>
  The test that ends an IXFR transfer: the last answer record is a \<^verbatim>\<open>*SOA\<close> with the
  serial recorded from the first message.
\<close>

definition ends_at :: "32 word \<Rightarrow> Msg \<Rightarrow> bool" where
  "ends_at serial m =
     (length (Answer m) > 0 \<and> as_SOA (Answer m ! (length (Answer m) - 1)) = Some serial)"

text \<open>
  The first message of a transfer is accepted when it is read without error, carries
  the id of the query and starts with a record of type SOA; in IXFR, when moreover it
  is not the single-record no-change reply and its first record is a \<^verbatim>\<open>*SOA\<close>. Every
  other first read ends the transfer there: a read error, another id, no opening SOA,
  the no-change reply.
\<close>

definition axfr_accepts :: "collab \<Rightarrow> Transfer \<Rightarrow> 16 word \<Rightarrow> rawread \<Rightarrow> bool" where
  "axfr_accepts cb t qid r =
     (case ReadMsg cb t r of
        (Some m, None) \<Rightarrow> MsgId m = qid \<and> isSOAFirst m
      | _ \<Rightarrow> False)"

definition ixfr_accepts :: "collab \<Rightarrow> Transfer \<Rightarrow> 16 word \<Rightarrow> rawread \<Rightarrow> bool" where
  "ixfr_accepts cb t qid r =
     (case ReadMsg cb t r of
        (Some m, None) \<Rightarrow>
          MsgId m = qid \<and> isSOAFirst m \<and> length (Answer m) \<noteq> 1 \<and> as_SOA (Answer m ! 0) \<noteq> None
      | _ \<Rightarrow> False)"

text \<open>The reply of \<^verbatim>\<open>Out\<close> once the records of the envelopes \<open>0\<close> to \<open>k\<close> are appended.\<close>

definition reply_upto :: "Msg \<Rightarrow> Envelope list \<Rightarrow> nat \<Rightarrow> Msg" where
  "reply_upto r xs k = r\<lparr>Answer := Answer r @ concat (map RR (take (Suc k) xs))\<rparr>"

text \<open>
  Modelled from the spec: the TSIG primitives and the wire codec (tsig.go and msg.go are
  not under src/). The spec gives them as collaborators,
  \<^verbatim>\<open>generate(bytes, secret, priorMAC, timersOnly) -> (signedBytes, newMAC, error)\<close> and
  \<^verbatim>\<open>verify(bytes, secret, priorMAC, timersOnly) -> error\<close>, and has a signed message
  verify and decode to the same answer section under the same chain state. For one
  message, secret, prior MAC and flag: when \<open>TsigGenerate\<close> succeeds, the bytes it gives
  verify under the same secret, prior MAC and flag, and decode to a message with the
  same TSIG owner name and the same answer section.
\<close>

definition tsig_contract :: "collab \<Rightarrow> Msg \<Rightarrow> string \<Rightarrow> string \<Rightarrow> bool \<Rightarrow> bool" where
  "tsig_contract cb m secret mac timers =
     (case TsigGenerate cb m secret mac timers of
        (out, mac', err) \<Rightarrow>
          err = None \<longrightarrow>
            TsigVerify cb out secret mac timers = None
            \<and> (case Unpack cb out of
                 Inl e \<Rightarrow> False
               | Inr m' \<Rightarrow> IsTsig cb m' = IsTsig cb m \<and> Answer m' = Answer m))"

section \<open>Fixtures\<close>

text \<open>
  The zero \<^verbatim>\<open>Transfer\<close>, and a codec for concrete runs: \<open>table_codec\<close> decodes the
  one-byte frame \<open>[k]\<close> to the \<open>k\<close>-th message of a table and encodes a message as
  its id, and no message of it carries a TSIG record; with \<open>signed_codec\<close> every message
  carries a TSIG record for the zone \<open>example.\<close>, the signed frame is \<open>[1]\<close> and it
  verifies as the first message of a session under one secret.
\<close>

definition new_Transfer :: Transfer where
  "new_Transfer = \<lparr>DialTimeout = 0, ReadTimeout = 0, WriteTimeout = 0, TsigSecret = None,
                     tsigTimersOnly = False, tsigRequestMAC = []\<rparr>"

definition table_codec :: "Msg list \<Rightarrow> collab" where
  "table_codec tab =
     \<lparr>Unpack = (\<lambda>p. case p of
                       [k] \<Rightarrow> if unat k < length tab then Inr (tab ! unat k)
                              else Inl (ErrExt ''unpack'')
                     | _ \<Rightarrow> Inl (ErrExt ''unpack'')),
      Pack = (\<lambda>m. ([ucast (MsgId m)], None)),
      IsTsig = (\<lambda>m. None),
      TsigVerify = (\<lambda>p secret mac timers. None),
      TsigGenerate = (\<lambda>m secret mac timers. ([], [], None))\<rparr>"

definition soa :: "32 word \<Rightarrow> RR" where
  "soa s = SOA \<lparr>Name = ''example.'', Rrtype = TypeSOA\<rparr> s"

definition rec_a :: RR where
  "rec_a = OtherRR \<lparr>Name = ''a.example.'', Rrtype = 1\<rparr>"

definition answer_msg :: "16 word \<Rightarrow> RR list \<Rightarrow> Msg" where
  "answer_msg i rrs = \<lparr>MsgId = i, Response = True, Authoritative = True, Question = [],
                        Answer = rrs, Extra = []\<rparr>"

definition signed_codec :: "Msg \<Rightarrow> collab" where
  "signed_codec m0 =
     \<lparr>Unpack = (\<lambda>p. if p = [1] then Inr m0 else Inl (ErrExt ''unpack'')),
      Pack = (\<lambda>m. ([0], None)),
      IsTsig = (\<lambda>m. Some ''example.''),
      TsigVerify = (\<lambda>p secret mac timers.
                      if p = [1] \<and> secret = ''c2VjcmV0'' \<and> mac = [] \<and> \<not> timers then None
                      else Some (ErrExt ''bad signature'')),
      TsigGenerate = (\<lambda>m secret mac timers. ([1], ''mac1'', None))\<rparr>"

text \<open>
  With \<open>chained_codec\<close> every message of the table carries a TSIG record for the zone
  \<open>example.\<close>, and the verification depends on the flag: the frame \<open>[0]\<close> verifies only
  in full-message mode, every other frame only in timers-only mode.
\<close>

definition chained_codec :: "Msg list \<Rightarrow> collab" where
  "chained_codec tab =
     \<lparr>Unpack = (\<lambda>p. case p of
                       [k] \<Rightarrow> if unat k < length tab then Inr (tab ! unat k)
                              else Inl (ErrExt ''unpack'')
                     | _ \<Rightarrow> Inl (ErrExt ''unpack'')),
      Pack = (\<lambda>m. ([ucast (MsgId m)], None)),
      IsTsig = (\<lambda>m. Some ''example.''),
      TsigVerify = (\<lambda>p secret mac timers.
                      if secret = ''c2VjcmV0'' \<and> (p = [0]) = (\<not> timers) then None
                      else Some (ErrExt ''bad signature'')),
      TsigGenerate = (\<lambda>m secret mac timers. ([ucast (MsgId m)], ''mac1'', None))\<rparr>"

definition query :: "16 word \<Rightarrow> 16 word \<Rightarrow> Msg" where
  "query i ty = \<lparr>MsgId = i, Response = False, Authoritative = False,
                  Question = [\<lparr>Qname = ''example.'', Qtype = ty\<rparr>], Answer = [], Extra = []\<rparr>"

section \<open>Properties\<close>

subsection \<open>Traces\<close>

lemma sends_append [simp]: "sends (a @ b) = sends a @ sends b"
  by (induction a rule: sends.induct) simp_all

lemma read_flags_append [simp]: "read_flags (a @ b) = read_flags a @ read_flags b"
  by (induction a rule: read_flags.induct) simp_all

lemma closes_append [simp]: "closes (a @ b) = closes a @ closes b"
  by (simp add: closes_def)

lemma closes_deferred [simp]: "closes deferred = [EvCloseChan, EvCloseConn]"
  by (simp add: closes_def deferred_def)

lemma axfr_body_closes: "closes (iter_events (axfr_body cb qid tmo first t r)) = []"
  by (simp add: axfr_body_def axfr_tail_def closes_def Let_def split: prod.splits option.splits)

lemma ixfr_tail_closes: "closes pre = [] \<Longrightarrow> closes (iter_events (ixfr_tail s t m pre)) = []"
  by (simp add: ixfr_tail_def closes_def Let_def split: option.splits)

lemma ixfr_body_closes: "closes (iter_events (ixfr_body cb qid tmo l t r)) = []"
proof (cases l)
  case (Pair serial first)
  have pre: "closes [EvSetReadDeadline tmo, EvReadMsg (tsigTimersOnly t)] = []"
    by (simp add: closes_def)
  show ?thesis unfolding Pair
    by (simp add: Let_def ixfr_tail_closes [OF pre] split: prod.splits option.splits)
      (simp add: closes_def)
qed

lemma axfr_loop_exit:
  "status (axfr_loop cb qid tmo first t rs) \<noteq> Running \<Longrightarrow>
   \<exists>pre. trace (axfr_loop cb qid tmo first t rs) = pre @ deferred \<and> closes pre = []"
proof (induction rs arbitrary: first t)
  case Nil
  then show ?case by simp
next
  case (Cons r rs)
  show ?case
  proof (cases "axfr_body cb qid tmo first t r")
    case (Continue f' t' evs)
    with Cons.prems have "status (axfr_loop cb qid tmo f' t' rs) \<noteq> Running"
      by (simp add: Let_def)
    from Cons.IH [OF this] obtain pre where
      pre: "trace (axfr_loop cb qid tmo f' t' rs) = pre @ deferred" "closes pre = []" by blast
    from axfr_body_closes [of cb qid tmo first t r] Continue have "closes evs = []" by simp
    with pre Continue show ?thesis
      by (intro exI [of _ "evs @ pre"]) (simp add: Let_def)
  next
    case (Return t' evs)
    from axfr_body_closes [of cb qid tmo first t r] Return have "closes evs = []" by simp
    with Return show ?thesis by simp
  next
    case (Panic p t' evs)
    from axfr_body_closes [of cb qid tmo first t r] Panic have "closes evs = []" by simp
    with Panic show ?thesis by simp
  qed
qed

lemma axfr_loop_running:
  "status (axfr_loop cb qid tmo first t rs) = Running \<Longrightarrow>
   closes (trace (axfr_loop cb qid tmo first t rs)) = []"
proof (induction rs arbitrary: first t)
  case Nil
  then show ?case by (simp add: closes_def)
next
  case (Cons r rs)
  show ?case
  proof (cases "axfr_body cb qid tmo first t r")
    case (Continue f' t' evs)
    from axfr_body_closes [of cb qid tmo first t r] Continue have "closes evs = []" by simp
    with Cons Continue show ?thesis by (simp add: Let_def)
  next
    case (Return t' evs)
    with Cons.prems show ?thesis by simp
  next
    case (Panic p t' evs)
    with Cons.prems show ?thesis by simp
  qed
qed

lemma ixfr_loop_exit:
  "status (ixfr_loop cb qid tmo l t rs) \<noteq> Running \<Longrightarrow>
   \<exists>pre. trace (ixfr_loop cb qid tmo l t rs) = pre @ deferred \<and> closes pre = []"
proof (induction rs arbitrary: l t)
  case Nil
  then show ?case by simp
next
  case (Cons r rs)
  show ?case
  proof (cases "ixfr_body cb qid tmo l t r")
    case (Continue l' t' evs)
    with Cons.prems have "status (ixfr_loop cb qid tmo l' t' rs) \<noteq> Running"
      by (simp add: Let_def)
    from Cons.IH [OF this] obtain pre where
      pre: "trace (ixfr_loop cb qid tmo l' t' rs) = pre @ deferred" "closes pre = []" by blast
    from ixfr_body_closes [of cb qid tmo l t r] Continue have "closes evs = []" by simp
    with pre Continue show ?thesis
      by (intro exI [of _ "evs @ pre"]) (simp add: Let_def)
  next
    case (Return t' evs)
    from ixfr_body_closes [of cb qid tmo l t r] Return have "closes evs = []" by simp
    with Return show ?thesis by simp
  next
    case (Panic p t' evs)
    from ixfr_body_closes [of cb qid tmo l t r] Panic have "closes evs = []" by simp
    with Panic show ?thesis by simp
  qed
qed

lemma write_deadlines_append [simp]:
  "write_deadlines (a @ b) = write_deadlines a @ write_deadlines b"
  by (induction a rule: write_deadlines.induct) simp_all

lemma axfr_body_wdl: "write_deadlines (iter_events (axfr_body cb qid tmo first t r)) = []"
  by (simp add: axfr_body_def axfr_tail_def Let_def split: prod.splits option.splits)

lemma ixfr_tail_wdl:
  "write_deadlines (iter_events (ixfr_tail s t m pre)) = write_deadlines pre"
  by (simp add: ixfr_tail_def Let_def split: option.splits)

lemma ixfr_body_wdl: "write_deadlines (iter_events (ixfr_body cb qid tmo l t r)) = []"
  by (cases l) (simp add: Let_def ixfr_tail_wdl split: prod.splits option.splits)

lemma axfr_loop_wdl: "write_deadlines (trace (axfr_loop cb qid tmo first t rs)) = []"
proof (induction rs arbitrary: first t)
  case Nil
  then show ?case by simp
next
  case (Cons r rs)
  from axfr_body_wdl [of cb qid tmo first t r] Cons.IH show ?case
    by (cases "axfr_body cb qid tmo first t r") (simp_all add: Let_def deferred_def)
qed

lemma ixfr_loop_wdl: "write_deadlines (trace (ixfr_loop cb qid tmo l t rs)) = []"
proof (induction rs arbitrary: l t)
  case Nil
  then show ?case by simp
next
  case (Cons r rs)
  from ixfr_body_wdl [of cb qid tmo l t r] Cons.IH show ?case
    by (cases "ixfr_body cb qid tmo l t r") (simp_all add: Let_def deferred_def)
qed

lemma WriteMsg_wdl: "write_deadlines (snd (snd (WriteMsg cb t m wres))) = []"
  by (simp add: WriteMsg_def write_out_def split: option.splits prod.splits)

lemma In_wdl: "write_deadlines (in_trace (In cb t q a dial wres)) = []"
  using WriteMsg_wdl [of cb "t\<lparr>tsigRequestMAC := []\<rparr>" q wres]
  by (auto simp add: In_def Let_def split: option.splits prod.splits)

lemma transfer_in_wdl:
  "write_deadlines (trace (snd (transfer_in cb t q a dial wres rs))) = []"
  by (simp add: transfer_in_def Let_def In_wdl run_task_def inAxfr_def inIxfr_def
      axfr_loop_wdl ixfr_loop_wdl split: task.splits)

lemma ReadMsg_failed_read: "ReadMsg cb t ([], Some e) = (None, Some e)"
  by (simp add: ReadMsg_def)

subsection \<open>Reads that deliver messages\<close>

lemma delivers_ReadMsg: "delivers cb t r m \<Longrightarrow> ReadMsg cb t r = (Some m, None)"
  by (simp add: delivers_def)

lemma axfr_body_streaming:
  assumes "delivers cb t r m" and "MsgId m = qid"
  shows "axfr_body cb qid tmo False t r =
           (if isSOALast m
            then Return (t\<lparr>tsigTimersOnly := True\<rparr>)
                   [EvSetReadDeadline tmo, EvReadMsg (tsigTimersOnly t), EvSend (ok_env m)]
            else Continue False (t\<lparr>tsigTimersOnly := True\<rparr>)
                   [EvSetReadDeadline tmo, EvReadMsg (tsigTimersOnly t), EvSend (ok_env m)])"
  using assms by (simp add: axfr_body_def axfr_tail_def delivers_ReadMsg ok_env_def)

lemma axfr_body_first:
  assumes "delivers cb t r m" and "MsgId m = qid" and "isSOAFirst m"
  shows "axfr_body cb qid tmo True t r =
           (if length (Answer m) \<noteq> 1 \<and> isSOALast m
            then Return (t\<lparr>tsigTimersOnly := True\<rparr>)
                   [EvSetReadDeadline tmo, EvReadMsg (tsigTimersOnly t), EvSend (ok_env m)]
            else Continue False (t\<lparr>tsigTimersOnly := True\<rparr>)
                   [EvSetReadDeadline tmo, EvReadMsg (tsigTimersOnly t), EvSend (ok_env m)])"
  using assms by (simp add: axfr_body_def axfr_tail_def delivers_ReadMsg ok_env_def Let_def)

text \<open>
  Once the first message is accepted the flag is set, and setting it again changes
  nothing: the later reads are all made in the session \<open>t\<lparr>tsigTimersOnly := True\<rparr>\<close>.
\<close>

lemma axfr_streaming:
  assumes "list_all2 (delivers cb (t\<lparr>tsigTimersOnly := True\<rparr>)) rs msgs"
    and "\<forall>m\<in>set msgs. MsgId m = qid"
  shows "sends (trace (axfr_loop cb qid tmo False (t\<lparr>tsigTimersOnly := True\<rparr>) rs))
           = map ok_env (upto_first isSOALast msgs)
         \<and> length (read_flags (trace (axfr_loop cb qid tmo False (t\<lparr>tsigTimersOnly := True\<rparr>) rs)))
             = length (upto_first isSOALast msgs)
         \<and> status (axfr_loop cb qid tmo False (t\<lparr>tsigTimersOnly := True\<rparr>) rs)
             = (if \<exists>m\<in>set msgs. isSOALast m then Returned else Running)"
  using assms
proof (induction rs msgs rule: list_all2_induct)
  case Nil
  then show ?case by simp
next
  case (Cons r rs m msgs)
  from Cons.prems have id: "MsgId m = qid" by simp
  note body = axfr_body_streaming [OF Cons.hyps(1) id, of tmo]
  have ids: "\<forall>m\<in>set msgs. MsgId m = qid" using Cons.prems by simp
  show ?case
  proof (cases "isSOALast m")
    case True
    then show ?thesis by (simp add: body deferred_def)
  next
    case False
    then show ?thesis using Cons.IH [OF ids] by (simp add: body Let_def)
  qed
qed

lemma upto_first_least:
  assumes "k < length xs" and "P (xs ! k)" and "\<forall>i<k. \<not> P (xs ! i)"
  shows "upto_first P xs = take (Suc k) xs"
  using assms
proof (induction xs arbitrary: k)
  case Nil
  then show ?case by simp
next
  case (Cons x xs)
  show ?case
  proof (cases k)
    case 0
    with Cons.prems show ?thesis by simp
  next
    case (Suc j)
    with Cons.prems have "\<not> P x" by auto
    moreover have "upto_first P xs = take (Suc j) xs"
      using Cons.prems Suc by (intro Cons.IH) auto
    ultimately show ?thesis using Suc by simp
  qed
qed

lemma upto_first_none: "\<forall>x\<in>set xs. \<not> P x \<Longrightarrow> upto_first P xs = xs"
  by (induction xs) simp_all

subsection \<open>The AXFR state machine\<close>

text \<open>
  Claim C1. Let the replies be the messages \<open>m0 # ms\<close>, read without error: the first
  by the session as it starts the transfer, the later ones by the session with the
  timers-only flag set, as it is from the first message on. Let all carry the id of the
  query and the first answer record of \<open>m0\<close> be of type SOA. Then \<^verbatim>\<open>inAxfr\<close> sends
  one envelope for each message it reads, in order, each with the answer section of its
  message and a nil error. If \<open>m0\<close> has exactly one answer record it is sent and the
  loop goes on, whether or not that record ends the message with a SOA; the transfer
  then stops at the first of the later messages whose last answer record is of type SOA.
  Otherwise it stops at the first message, \<open>m0\<close> included, whose last answer record is
  of type SOA. It returns exactly when there is such a message, and is waiting for the
  next read when there is none.
\<close>

theorem axfr_stream:
  assumes "delivers cb t r0 m0"
    and "list_all2 (delivers cb (t\<lparr>tsigTimersOnly := True\<rparr>)) rs ms"
    and "\<forall>m\<in>set (m0 # ms). MsgId m = qid"
    and "isSOAFirst m0"
  shows "sends (trace (inAxfr cb t qid (r0 # rs)))
           = map ok_env (if length (Answer m0) = 1 then m0 # upto_first isSOALast ms
                         else upto_first isSOALast (m0 # ms))
         \<and> length (read_flags (trace (inAxfr cb t qid (r0 # rs))))
             = length (sends (trace (inAxfr cb t qid (r0 # rs))))
         \<and> status (inAxfr cb t qid (r0 # rs))
             = (if (length (Answer m0) \<noteq> 1 \<and> isSOALast m0) \<or> (\<exists>m\<in>set ms. isSOALast m)
                then Returned else Running)"
proof -
  have ids: "\<forall>m\<in>set ms. MsgId m = qid" and id0: "MsgId m0 = qid" using assms(3) by simp_all
  note body = axfr_body_first [OF assms(1) id0 assms(4), of "read_timeout t"]
  note str = axfr_streaming [OF assms(2) ids, of "read_timeout t"]
  show ?thesis
  proof (cases "length (Answer m0) \<noteq> 1 \<and> isSOALast m0")
    case True
    then show ?thesis by (auto simp add: inAxfr_def body deferred_def)
  next
    case False
    then show ?thesis using str by (auto simp add: inAxfr_def body Let_def)
  qed
qed

text \<open>
  The theorem at the replies \<open>[SOA]\<close>, \<open>[r1, SOA]\<close>: two envelopes and the transfer is
  over; at the single reply \<open>[SOA, r1, r2, SOA]\<close>: one envelope with the four records
  and the transfer is over; and at the replies \<open>[SOA]\<close>, \<open>[r1, SOA]\<close> of a signed
  transfer, where the first frame verifies only with the flag clear and the second only
  with the flag set.
\<close>

theorem axfr_stream_witness:
  "sends (trace (inAxfr (table_codec [answer_msg 7 [soa 1], answer_msg 7 [rec_a, soa 1]])
                   new_Transfer 7 [([0], None), ([1], None)]))
     = [\<lparr>RR = [soa 1], Error = None\<rparr>, \<lparr>RR = [rec_a, soa 1], Error = None\<rparr>]
   \<and> status (inAxfr (table_codec [answer_msg 7 [soa 1], answer_msg 7 [rec_a, soa 1]])
               new_Transfer 7 [([0], None), ([1], None)]) = Returned
   \<and> sends (trace (inAxfr (table_codec [answer_msg 7 [soa 1, rec_a, rec_a, soa 1]])
                   new_Transfer 7 [([0], None)]))
     = [\<lparr>RR = [soa 1, rec_a, rec_a, soa 1], Error = None\<rparr>]
   \<and> status (inAxfr (table_codec [answer_msg 7 [soa 1, rec_a, rec_a, soa 1]])
               new_Transfer 7 [([0], None)]) = Returned
   \<and> sends (trace (inAxfr (chained_codec [answer_msg 7 [soa 1], answer_msg 7 [rec_a, soa 1]])
                   (new_Transfer\<lparr>TsigSecret := Some [''example.'' \<mapsto> ''c2VjcmV0'']\<rparr>) 7
                   [([0], None), ([1], None)]))
     = [\<lparr>RR = [soa 1], Error = None\<rparr>, \<lparr>RR = [rec_a, soa 1], Error = None\<rparr>]
   \<and> status (inAxfr (chained_codec [answer_msg 7 [soa 1], answer_msg 7 [rec_a, soa 1]])
               (new_Transfer\<lparr>TsigSecret := Some [''example.'' \<mapsto> ''c2VjcmV0'']\<rparr>) 7
               [([0], None), ([1], None)]) = Returned"
proof -
  let ?C = "table_codec [answer_msg 7 [soa 1], answer_msg 7 [rec_a, soa 1]]"
  let ?D = "table_codec [answer_msg 7 [soa 1, rec_a, rec_a, soa 1]]"
  let ?E = "chained_codec [answer_msg 7 [soa 1], answer_msg 7 [rec_a, soa 1]]"
  let ?T = "new_Transfer\<lparr>TsigSecret := Some [''example.'' \<mapsto> ''c2VjcmV0'']\<rparr>"
  have h0: "delivers ?C new_Transfer ([0], None) (answer_msg 7 [soa 1])"
    by (simp add: delivers_def ReadMsg_def table_codec_def)
  have h1: "list_all2 (delivers ?C (new_Transfer\<lparr>tsigTimersOnly := True\<rparr>)) [([1], None)]
              [answer_msg 7 [rec_a, soa 1]]"
    by (simp add: delivers_def ReadMsg_def table_codec_def)
  have h2: "\<forall>m\<in>set (answer_msg 7 [soa 1] # [answer_msg 7 [rec_a, soa 1]]). MsgId m = 7"
    by (simp add: answer_msg_def)
  have h3: "isSOAFirst (answer_msg 7 [soa 1])"
    by (simp add: isSOAFirst_def answer_msg_def soa_def)
  have e1: "isSOALast (answer_msg 7 [rec_a, soa 1])"
    by (simp add: isSOALast_def answer_msg_def soa_def)
  have e2: "length (Answer (answer_msg 7 [soa 1])) = 1"
    by (simp add: answer_msg_def)
  have two: "sends (trace (inAxfr ?C new_Transfer 7 [([0], None), ([1], None)]))
     = [\<lparr>RR = [soa 1], Error = None\<rparr>, \<lparr>RR = [rec_a, soa 1], Error = None\<rparr>]
   \<and> status (inAxfr ?C new_Transfer 7 [([0], None), ([1], None)]) = Returned"
    using axfr_stream [OF h0 h1 h2 h3] e1 e2 by (simp add: ok_env_def answer_msg_def)
  have k0: "delivers ?D new_Transfer ([0], None) (answer_msg 7 [soa 1, rec_a, rec_a, soa 1])"
    by (simp add: delivers_def ReadMsg_def table_codec_def)
  have k1: "list_all2 (delivers ?D (new_Transfer\<lparr>tsigTimersOnly := True\<rparr>)) [] []"
    by simp
  have k2: "\<forall>m\<in>set (answer_msg 7 [soa 1, rec_a, rec_a, soa 1] # []). MsgId m = 7"
    by (simp add: answer_msg_def)
  have k3: "isSOAFirst (answer_msg 7 [soa 1, rec_a, rec_a, soa 1])"
    by (simp add: isSOAFirst_def answer_msg_def soa_def)
  have f1: "isSOALast (answer_msg 7 [soa 1, rec_a, rec_a, soa 1])"
    by (simp add: isSOALast_def answer_msg_def soa_def)
  have f2: "length (Answer (answer_msg 7 [soa 1, rec_a, rec_a, soa 1])) = 4"
    by (simp add: answer_msg_def)
  have one: "sends (trace (inAxfr ?D new_Transfer 7 [([0], None)]))
     = [\<lparr>RR = [soa 1, rec_a, rec_a, soa 1], Error = None\<rparr>]
   \<and> status (inAxfr ?D new_Transfer 7 [([0], None)]) = Returned"
    using axfr_stream [OF k0 k1 k2 k3] f1 f2 by (simp add: ok_env_def answer_msg_def)
  have s0: "delivers ?E ?T ([0], None) (answer_msg 7 [soa 1])"
    by (simp add: delivers_def ReadMsg_def chained_codec_def new_Transfer_def)
  have s1: "list_all2 (delivers ?E (?T\<lparr>tsigTimersOnly := True\<rparr>)) [([1], None)]
              [answer_msg 7 [rec_a, soa 1]]"
    by (simp add: delivers_def ReadMsg_def chained_codec_def new_Transfer_def)
  have signed: "sends (trace (inAxfr ?E ?T 7 [([0], None), ([1], None)]))
     = [\<lparr>RR = [soa 1], Error = None\<rparr>, \<lparr>RR = [rec_a, soa 1], Error = None\<rparr>]
   \<and> status (inAxfr ?E ?T 7 [([0], None), ([1], None)]) = Returned"
    using axfr_stream [OF s0 s1 h2 h3] e1 e2 by (simp add: ok_env_def answer_msg_def)
  from two one signed show ?thesis by simp
qed

subsection \<open>The IXFR state machine\<close>

text \<open>
  When the replies are read without error (the first by the session as it starts, the
  later ones with the flag set), every message after the first has a non-empty answer
  section, and the first record of the first message is a \<^verbatim>\<open>*SOA\<close> with serial \<open>s\<close>, \<^verbatim>\<open>inIxfr\<close> stops at
  once on a single-record first message, and otherwise at the first message whose last
  record is a \<^verbatim>\<open>*SOA\<close> with serial \<open>s\<close>; every message up to there is sent with a nil
  error.
\<close>

lemma ixfr_body_streaming:
  assumes "delivers cb t r m" and "MsgId m = qid" and "Answer m \<noteq> []"
  shows "ixfr_body cb qid tmo (s, False) t r =
           (if ends_at s m
            then Return (t\<lparr>tsigTimersOnly := True\<rparr>)
                   [EvSetReadDeadline tmo, EvReadMsg (tsigTimersOnly t), EvSend (ok_env m)]
            else Continue (s, False) (t\<lparr>tsigTimersOnly := True\<rparr>)
                   [EvSetReadDeadline tmo, EvReadMsg (tsigTimersOnly t), EvSend (ok_env m)])"
  using assms
  by (simp add: ixfr_tail_def delivers_ReadMsg ok_env_def ends_at_def Let_def
      split: option.splits)

lemma ixfr_body_first:
  assumes "delivers cb t r m" and "MsgId m = qid" and "isSOAFirst m"
    and "as_SOA (Answer m ! 0) = Some s"
  shows "ixfr_body cb qid tmo (s0, True) t r =
           (if length (Answer m) = 1
            then Return t [EvSetReadDeadline tmo, EvReadMsg (tsigTimersOnly t), EvSend (ok_env m)]
            else if ends_at s m
            then Return (t\<lparr>tsigTimersOnly := True\<rparr>)
                   [EvSetReadDeadline tmo, EvReadMsg (tsigTimersOnly t), EvSend (ok_env m)]
            else Continue (s, False) (t\<lparr>tsigTimersOnly := True\<rparr>)
                   [EvSetReadDeadline tmo, EvReadMsg (tsigTimersOnly t), EvSend (ok_env m)])"
proof -
  from assms(3) have "Answer m \<noteq> []" by (auto simp add: isSOAFirst_def)
  with assms show ?thesis
    by (simp add: ixfr_tail_def delivers_ReadMsg ok_env_def ends_at_def Let_def
        split: option.splits)
qed

lemma ixfr_streaming:
  assumes "list_all2 (delivers cb (t\<lparr>tsigTimersOnly := True\<rparr>)) rs msgs"
    and "\<forall>m\<in>set msgs. MsgId m = qid"
    and "\<forall>m\<in>set msgs. Answer m \<noteq> []"
  shows "sends (trace (ixfr_loop cb qid tmo (s, False) (t\<lparr>tsigTimersOnly := True\<rparr>) rs))
           = map ok_env (upto_first (ends_at s) msgs)
         \<and> status (ixfr_loop cb qid tmo (s, False) (t\<lparr>tsigTimersOnly := True\<rparr>) rs)
             = (if \<exists>m\<in>set msgs. ends_at s m then Returned else Running)"
  using assms
proof (induction rs msgs rule: list_all2_induct)
  case Nil
  then show ?case by simp
next
  case (Cons r rs m msgs)
  from Cons.prems have id: "MsgId m = qid" and ne: "Answer m \<noteq> []" by simp_all
  note body = ixfr_body_streaming [OF Cons.hyps(1) id ne, of tmo s]
  have ids: "\<forall>m\<in>set msgs. MsgId m = qid" and nes: "\<forall>m\<in>set msgs. Answer m \<noteq> []"
    using Cons.prems by simp_all
  show ?case
  proof (cases "ends_at s m")
    case True
    then show ?thesis by (simp add: body deferred_def del: ixfr_body.simps)
  next
    case False
    then show ?thesis using Cons.IH [OF ids nes]
      by (simp add: body Let_def del: ixfr_body.simps)
  qed
qed

lemma ixfr_stream:
  assumes "delivers cb t r0 m0"
    and "list_all2 (delivers cb (t\<lparr>tsigTimersOnly := True\<rparr>)) rs ms"
    and "\<forall>m\<in>set (m0 # ms). MsgId m = qid"
    and "\<forall>m\<in>set ms. Answer m \<noteq> []"
    and "isSOAFirst m0" and "as_SOA (Answer m0 ! 0) = Some s"
  shows "sends (trace (inIxfr cb t qid (r0 # rs)))
           = map ok_env (if length (Answer m0) = 1 then [m0]
                         else upto_first (ends_at s) (m0 # ms))
         \<and> status (inIxfr cb t qid (r0 # rs))
             = (if length (Answer m0) = 1 \<or> (\<exists>m\<in>set (m0 # ms). ends_at s m)
                then Returned else Running)"
proof -
  have ids: "\<forall>m\<in>set ms. MsgId m = qid" and id0: "MsgId m0 = qid" using assms(3) by simp_all
  note body = ixfr_body_first [OF assms(1) id0 assms(5,6), of "read_timeout t" 0]
  note str = ixfr_streaming [OF assms(2) ids assms(4), of "read_timeout t" s]
  show ?thesis
  proof (cases "length (Answer m0) = 1 \<or> ends_at s m0")
    case True
    then show ?thesis by (auto simp add: inIxfr_def body deferred_def simp del: ixfr_body.simps)
  next
    case False
    then show ?thesis using str
      by (auto simp add: inIxfr_def body Let_def simp del: ixfr_body.simps)
  qed
qed

text \<open>
  Claim C2 has every message before the terminating one sent as an envelope without
  error, and the transfer stop at the message whose last record is a SOA with the
  recorded serial. \<^verbatim>\<open>inIxfr\<close> reads \<^verbatim>\<open>in.Answer[len(in.Answer)-1]\<close> without
  looking at the length, where \<^verbatim>\<open>isSOALast\<close> does: at the replies \<open>[SOA 5, a]\<close>, \<open>[]\<close>,
  \<open>[a, SOA 5]\<close> the task panics on the second message, having sent the first envelope
  only. \<^verbatim>\<open>inAxfr\<close> sends the three envelopes for the same replies.
\<close>

theorem ixfr_empty_answer_panics:
  "status (inIxfr (table_codec [answer_msg 7 [soa 5, rec_a], answer_msg 7 [],
                                answer_msg 7 [rec_a, soa 5]])
             new_Transfer 7 [([0], None), ([1], None), ([2], None)])
     = Panicked IndexOutOfRange
   \<and> sends (trace (inIxfr (table_codec [answer_msg 7 [soa 5, rec_a], answer_msg 7 [],
                                       answer_msg 7 [rec_a, soa 5]])
                    new_Transfer 7 [([0], None), ([1], None), ([2], None)]))
     = [\<lparr>RR = [soa 5, rec_a], Error = None\<rparr>]
   \<and> sends (trace (inAxfr (table_codec [answer_msg 7 [soa 5, rec_a], answer_msg 7 [],
                                       answer_msg 7 [rec_a, soa 5]])
                    new_Transfer 7 [([0], None), ([1], None), ([2], None)]))
     = [\<lparr>RR = [soa 5, rec_a], Error = None\<rparr>, \<lparr>RR = [], Error = None\<rparr>,
        \<lparr>RR = [rec_a, soa 5], Error = None\<rparr>]"
  by (simp add: inIxfr_def inAxfr_def table_codec_def answer_msg_def ReadMsg_def
      ixfr_tail_def axfr_body_def axfr_tail_def isSOAFirst_def isSOALast_def soa_def rec_a_def
      TypeSOA_def deferred_def Let_def)

subsection \<open>Read failure in the IXFR state machine\<close>

text \<open>
  Claim C3 says that a failed read in the IXFR state machine is handled as in AXFR: one
  terminal envelope with the error and no records, nothing raised out of band. The code
  sends \<^verbatim>\<open>&Envelope{in.Answer, err}\<close> where \<^verbatim>\<open>inAxfr\<close> sends \<^verbatim>\<open>&Envelope{nil, err}\<close>.
  When the read itself fails, \<^verbatim>\<open>ReadMsg\<close> returns a nil message, so \<^verbatim>\<open>in.Answer\<close>
  panics: the IXFR task sends no envelope at all, while the AXFR task sends the one the
  claim describes.
\<close>

theorem ixfr_read_failure_panics:
  "status (inIxfr cb t qid (([], Some e) # rs)) = Panicked NilDereference
   \<and> sends (trace (inIxfr cb t qid (([], Some e) # rs))) = []
   \<and> status (inAxfr cb t qid (([], Some e) # rs)) = Returned
   \<and> sends (trace (inAxfr cb t qid (([], Some e) # rs))) = [\<lparr>RR = [], Error = Some e\<rparr>]"
  by (simp add: inIxfr_def inAxfr_def ReadMsg_failed_read axfr_body_def deferred_def)

subsection \<open>Closing the stream and the connection\<close>

text \<open>
  Claim C4, as amended: on every exit of \<^verbatim>\<open>inAxfr\<close> and \<^verbatim>\<open>inIxfr\<close> (a return or a
  panic) the envelope channel and the connection are both closed, each once, as the last
  two actions of the task, and the channel is closed first, the connection after it.
\<close>

theorem close_order:
  assumes "out = inAxfr cb t qid rs \<or> out = inIxfr cb t qid rs" and "status out \<noteq> Running"
  shows "\<exists>pre. trace out = pre @ [EvCloseChan, EvCloseConn] \<and> closes pre = []"
  using assms axfr_loop_exit [of cb qid "read_timeout t" True t rs]
    ixfr_loop_exit [of cb qid "read_timeout t" "(0, True)" t rs]
  by (auto simp add: inAxfr_def inIxfr_def deferred_def)

theorem close_order_witness:
  "status (inAxfr (table_codec []) new_Transfer 7 [([], Some (ErrExt ''EOF''))]) \<noteq> Running
   \<and> (\<exists>pre. trace (inAxfr (table_codec []) new_Transfer 7 [([], Some (ErrExt ''EOF''))])
               = pre @ [EvCloseChan, EvCloseConn] \<and> closes pre = [])"
proof -
  have h: "status (inAxfr (table_codec []) new_Transfer 7 [([], Some (ErrExt ''EOF''))]) \<noteq> Running"
    by (simp add: inAxfr_def axfr_body_def ReadMsg_def)
  from close_order [OF disjI1 [OF refl] h] h show ?thesis by blast
qed

text \<open>
  Claim C4 as stated has the connection closed before the stream. At a transfer whose
  first read fails the two closes come in the other order.
\<close>

theorem close_order_counterexample:
  "closes (trace (inAxfr (table_codec []) new_Transfer 7 [([], Some (ErrExt ''EOF''))]))
     = [EvCloseChan, EvCloseConn]
   \<and> closes (trace (inAxfr (table_codec []) new_Transfer 7 [([], Some (ErrExt ''EOF''))]))
     \<noteq> [EvCloseConn, EvCloseChan]"
  by (simp add: inAxfr_def axfr_body_def ReadMsg_def closes_def deferred_def)

subsection \<open>The timers-only flag\<close>

lemma axfr_body_flags:
  "read_flags (iter_events (axfr_body cb qid tmo first t r)) = [tsigTimersOnly t]"
  by (simp add: axfr_body_def axfr_tail_def Let_def split: prod.splits option.splits)

lemma axfr_body_continue:
  "axfr_body cb qid tmo first t r = Continue f' t' evs \<Longrightarrow> tsigTimersOnly t'"
  by (auto simp add: axfr_body_def axfr_tail_def Let_def split: prod.splits option.splits if_splits)

lemma axfr_body_mono:
  "tsigTimersOnly t \<Longrightarrow> tsigTimersOnly (iter_session (axfr_body cb qid tmo first t r))"
  by (simp add: axfr_body_def axfr_tail_def Let_def split: prod.splits option.splits)

lemma ixfr_tail_flags:
  "read_flags (iter_events (ixfr_tail s t m pre)) = read_flags pre"
  by (simp add: ixfr_tail_def Let_def split: option.splits)

lemma ixfr_tail_session: "tsigTimersOnly (iter_session (ixfr_tail s t m pre))"
  by (simp add: ixfr_tail_def Let_def split: option.splits)

lemma ixfr_body_flags:
  "read_flags (iter_events (ixfr_body cb qid tmo l t r)) = [tsigTimersOnly t]"
  by (cases l) (simp add: Let_def ixfr_tail_flags split: prod.splits option.splits)

lemma ixfr_body_continue:
  assumes "ixfr_body cb qid tmo l t r = Continue l' t' evs"
  shows "tsigTimersOnly t'"
proof -
  obtain serial first where l: "l = (serial, first)" by (cases l)
  from assms obtain s m pre where "ixfr_tail s t m pre = Continue l' t' evs"
    unfolding l by (auto simp add: Let_def split: prod.splits option.splits if_splits)
  with ixfr_tail_session [of s t m pre] show ?thesis by simp
qed

lemma ixfr_body_mono:
  "tsigTimersOnly t \<Longrightarrow> tsigTimersOnly (iter_session (ixfr_body cb qid tmo l t r))"
  by (cases l) (simp add: Let_def ixfr_tail_session split: prod.splits option.splits)

text \<open>Once the flag is set, every later read sees it set and it stays set.\<close>

lemma axfr_loop_set:
  "tsigTimersOnly t \<Longrightarrow>
     tsigTimersOnly (session (axfr_loop cb qid tmo first t rs))
     \<and> (\<forall>b\<in>set (read_flags (trace (axfr_loop cb qid tmo first t rs))). b)"
proof (induction rs arbitrary: first t)
  case Nil
  then show ?case by simp
next
  case (Cons r rs)
  note fl = axfr_body_flags [of cb qid tmo first t r]
  note mono = axfr_body_mono [OF Cons.prems, of cb qid tmo first r]
  show ?case
  proof (cases "axfr_body cb qid tmo first t r")
    case (Continue f' t' evs)
    with mono have "tsigTimersOnly t'" by simp
    from Cons.IH [OF this, of f'] fl Cons.prems Continue show ?thesis
      by (auto simp add: Let_def)
  next
    case (Return t' evs)
    with mono fl Cons.prems show ?thesis by (simp add: deferred_def)
  next
    case (Panic p t' evs)
    with mono fl Cons.prems show ?thesis by (simp add: deferred_def)
  qed
qed

lemma ixfr_loop_set:
  "tsigTimersOnly t \<Longrightarrow>
     tsigTimersOnly (session (ixfr_loop cb qid tmo l t rs))
     \<and> (\<forall>b\<in>set (read_flags (trace (ixfr_loop cb qid tmo l t rs))). b)"
proof (induction rs arbitrary: l t)
  case Nil
  then show ?case by simp
next
  case (Cons r rs)
  note fl = ixfr_body_flags [of cb qid tmo l t r]
  note mono = ixfr_body_mono [OF Cons.prems, of cb qid tmo l r]
  show ?case
  proof (cases "ixfr_body cb qid tmo l t r")
    case (Continue l' t' evs)
    with mono have "tsigTimersOnly t'" by simp
    from Cons.IH [OF this, of l'] fl Cons.prems Continue show ?thesis
      by (auto simp add: Let_def)
  next
    case (Return t' evs)
    with mono fl Cons.prems show ?thesis by (simp add: deferred_def)
  next
    case (Panic p t' evs)
    with mono fl Cons.prems show ?thesis by (simp add: deferred_def)
  qed
qed

text \<open>The first read sees the flag as the session starts with it, every later read sees it set.\<close>

lemma axfr_loop_flags:
  "\<exists>bs. read_flags (trace (axfr_loop cb qid tmo first t (r # rs))) = tsigTimersOnly t # bs
        \<and> (\<forall>b\<in>set bs. b)"
proof (cases "axfr_body cb qid tmo first t r")
  case (Continue f' t' evs)
  from axfr_body_continue [OF Continue] have "tsigTimersOnly t'" .
  from axfr_loop_set [OF this, of cb qid tmo f' rs] axfr_body_flags [of cb qid tmo first t r] Continue
  show ?thesis by (auto simp add: Let_def)
next
  case (Return t' evs)
  with axfr_body_flags [of cb qid tmo first t r] show ?thesis by (simp add: deferred_def)
next
  case (Panic p t' evs)
  with axfr_body_flags [of cb qid tmo first t r] show ?thesis by (simp add: deferred_def)
qed

lemma ixfr_loop_flags:
  "\<exists>bs. read_flags (trace (ixfr_loop cb qid tmo l t (r # rs))) = tsigTimersOnly t # bs
        \<and> (\<forall>b\<in>set bs. b)"
proof (cases "ixfr_body cb qid tmo l t r")
  case (Continue l' t' evs)
  from ixfr_body_continue [OF Continue] have "tsigTimersOnly t'" .
  from ixfr_loop_set [OF this, of cb qid tmo l' rs] ixfr_body_flags [of cb qid tmo l t r] Continue
  show ?thesis by (auto simp add: Let_def)
next
  case (Return t' evs)
  with ixfr_body_flags [of cb qid tmo l t r] show ?thesis by (simp add: deferred_def)
next
  case (Panic p t' evs)
  with ixfr_body_flags [of cb qid tmo l t r] show ?thesis by (simp add: deferred_def)
qed

lemma flags_nth:
  assumes "fl = b0 # bs" and "\<forall>b\<in>set bs. b" and "\<not> b0" and "k < length fl"
  shows "fl ! k = (0 < k)"
  using assms by (cases k) auto

text \<open>The flag is set whenever the loop goes on after a message.\<close>

lemma axfr_loop_running_set:
  "status (axfr_loop cb qid tmo first t (r # rs)) = Running \<Longrightarrow>
   tsigTimersOnly (session (axfr_loop cb qid tmo first t (r # rs)))"
proof (cases "axfr_body cb qid tmo first t r")
  case (Continue f' t' evs)
  from axfr_body_continue [OF Continue] have "tsigTimersOnly t'" .
  from axfr_loop_set [OF this, of cb qid tmo f' rs] Continue show ?thesis by (simp add: Let_def)
next
  case (Return t' evs)
  assume "status (axfr_loop cb qid tmo first t (r # rs)) = Running"
  with Return show ?thesis by simp
next
  case (Panic p t' evs)
  assume "status (axfr_loop cb qid tmo first t (r # rs)) = Running"
  with Panic show ?thesis by simp
qed

lemma ixfr_loop_running_set:
  "status (ixfr_loop cb qid tmo l t (r # rs)) = Running \<Longrightarrow>
   tsigTimersOnly (session (ixfr_loop cb qid tmo l t (r # rs)))"
proof (cases "ixfr_body cb qid tmo l t r")
  case (Continue l' t' evs)
  from ixfr_body_continue [OF Continue] have "tsigTimersOnly t'" .
  from ixfr_loop_set [OF this, of cb qid tmo l' rs] Continue show ?thesis by (simp add: Let_def)
next
  case (Return t' evs)
  assume "status (ixfr_loop cb qid tmo l t (r # rs)) = Running"
  with Return show ?thesis by simp
next
  case (Panic p t' evs)
  assume "status (ixfr_loop cb qid tmo l t (r # rs)) = Running"
  with Panic show ?thesis by simp
qed

text \<open>The flag over time: set after the reads \<open>rs\<close>, it is set after any further reads.\<close>

lemma axfr_loop_later:
  "tsigTimersOnly (session (axfr_loop cb qid tmo first t rs)) \<Longrightarrow>
   tsigTimersOnly (session (axfr_loop cb qid tmo first t (rs @ rs')))"
proof (induction rs arbitrary: first t)
  case Nil
  then show ?case using axfr_loop_set [of t cb qid tmo first rs'] by simp
next
  case (Cons r rs)
  show ?case
  proof (cases "axfr_body cb qid tmo first t r")
    case (Continue f' t' evs)
    with Cons.prems have "tsigTimersOnly (session (axfr_loop cb qid tmo f' t' rs))"
      by (simp add: Let_def)
    from Cons.IH [OF this] Continue show ?thesis by (simp add: Let_def)
  next
    case (Return t' evs)
    with Cons.prems show ?thesis by simp
  next
    case (Panic p t' evs)
    with Cons.prems show ?thesis by simp
  qed
qed

lemma ixfr_loop_later:
  "tsigTimersOnly (session (ixfr_loop cb qid tmo l t rs)) \<Longrightarrow>
   tsigTimersOnly (session (ixfr_loop cb qid tmo l t (rs @ rs')))"
proof (induction rs arbitrary: l t)
  case Nil
  then show ?case using ixfr_loop_set [of t cb qid tmo l rs'] by simp
next
  case (Cons r rs)
  show ?case
  proof (cases "ixfr_body cb qid tmo l t r")
    case (Continue l' t' evs)
    with Cons.prems have "tsigTimersOnly (session (ixfr_loop cb qid tmo l' t' rs))"
      by (simp add: Let_def)
    from Cons.IH [OF this] Continue show ?thesis by (simp add: Let_def)
  next
    case (Return t' evs)
    with Cons.prems show ?thesis by simp
  next
    case (Panic p t' evs)
    with Cons.prems show ?thesis by simp
  qed
qed

lemma WriteMsg_flag: "tsigTimersOnly (fst (WriteMsg cb t m wres)) = tsigTimersOnly t"
  by (simp add: WriteMsg_def write_out_def split: option.splits prod.splits)

lemma In_flag: "tsigTimersOnly (in_session (In cb t q a dial wres)) = tsigTimersOnly t"
proof (cases dial)
  case (Some e)
  then show ?thesis by (simp add: In_def Let_def)
next
  case None
  obtain t1 err evs where w: "WriteMsg cb (t\<lparr>tsigRequestMAC := []\<rparr>) q wres = (t1, err, evs)"
    by (cases "WriteMsg cb (t\<lparr>tsigRequestMAC := []\<rparr>) q wres")
  from WriteMsg_flag [of cb "t\<lparr>tsigRequestMAC := []\<rparr>" q wres] w
  have "tsigTimersOnly t1 = tsigTimersOnly t" by simp
  with None w show ?thesis by (cases err) (simp_all add: In_def Let_def)
qed

text \<open>The flag after the first pass: set exactly when the first message is accepted.\<close>

lemma axfr_body_first_flag:
  "\<not> tsigTimersOnly t \<Longrightarrow>
   tsigTimersOnly (iter_session (axfr_body cb qid tmo True t r)) = axfr_accepts cb t qid r"
  by (simp add: axfr_body_def axfr_tail_def axfr_accepts_def Let_def
      split: prod.splits option.splits)

lemma ixfr_body_first_flag:
  "\<not> tsigTimersOnly t \<Longrightarrow>
   tsigTimersOnly (iter_session (ixfr_body cb qid tmo (s0, True) t r)) = ixfr_accepts cb t qid r"
  by (auto simp add: ixfr_accepts_def ixfr_tail_session Let_def
      split: prod.splits option.splits)

text \<open>Whatever is read later, the flag is as the first pass leaves it or set.\<close>

lemma axfr_loop_first_session:
  "tsigTimersOnly (session (axfr_loop cb qid tmo first t (r # rs)))
     = tsigTimersOnly (iter_session (axfr_body cb qid tmo first t r))"
proof (cases "axfr_body cb qid tmo first t r")
  case (Continue f' t' evs)
  from axfr_body_continue [OF Continue] have t': "tsigTimersOnly t'" .
  from axfr_loop_set [OF t', of cb qid tmo f' rs] t' Continue show ?thesis
    by (simp add: Let_def)
next
  case (Return t' evs)
  then show ?thesis by simp
next
  case (Panic p t' evs)
  then show ?thesis by simp
qed

lemma ixfr_loop_first_session:
  "tsigTimersOnly (session (ixfr_loop cb qid tmo l t (r # rs)))
     = tsigTimersOnly (iter_session (ixfr_body cb qid tmo l t r))"
proof (cases "ixfr_body cb qid tmo l t r")
  case (Continue l' t' evs)
  from ixfr_body_continue [OF Continue] have t': "tsigTimersOnly t'" .
  from ixfr_loop_set [OF t', of cb qid tmo l' rs] t' Continue show ?thesis
    by (simp add: Let_def del: ixfr_body.simps)
next
  case (Return t' evs)
  then show ?thesis by (simp del: ixfr_body.simps)
next
  case (Panic p t' evs)
  then show ?thesis by (simp del: ixfr_body.simps)
qed

text \<open>
  Claim C5, as amended. Take an inbound transfer, AXFR or IXFR, on a session whose flag
  is false when the state machine starts. The first reply is read and verified with the
  flag false and every later reply with the flag true. After the first message, and
  whatever is read later, the flag is true exactly when the first message was accepted;
  it is false when the transfer ended on its first message with a read error, another
  id, no opening SOA or IXFR's no-change reply. As soon as a message has been handled
  and the transfer goes on the flag is true. Once true after some reads it is true
  after any further reads. \<^verbatim>\<open>WriteMsg\<close> and \<^verbatim>\<open>In\<close> leave the flag as they find it:
  \<^verbatim>\<open>In\<close> does not clear the flag of a session used before.
\<close>

theorem timers_only_flag:
  assumes "\<not> tsigTimersOnly t"
    and "run = inAxfr cb t qid \<and> accepts = axfr_accepts cb t qid
         \<or> run = inIxfr cb t qid \<and> accepts = ixfr_accepts cb t qid"
  shows "(\<forall>k<length (read_flags (trace (run rs))). read_flags (trace (run rs)) ! k = (0 < k))
         \<and> tsigTimersOnly (session (run (r # rs))) = accepts r
         \<and> (rs \<noteq> [] \<and> status (run rs) = Running \<longrightarrow> tsigTimersOnly (session (run rs)))
         \<and> (tsigTimersOnly (session (run rs)) \<longrightarrow> tsigTimersOnly (session (run (rs @ rs'))))
         \<and> tsigTimersOnly (fst (WriteMsg cb t' m wres)) = tsigTimersOnly t'
         \<and> tsigTimersOnly (in_session (In cb t' q a dial wres)) = tsigTimersOnly t'"
proof -
  have 1: "\<forall>k<length (read_flags (trace (run rs))). read_flags (trace (run rs)) ! k = (0 < k)"
  proof (cases rs)
    case Nil
    with assms(2) show ?thesis by (auto simp add: inAxfr_def inIxfr_def)
  next
    case (Cons r0 rs0)
    from assms(2) obtain bs where
      bs: "read_flags (trace (run rs)) = tsigTimersOnly t # bs" "\<forall>b\<in>set bs. b"
      using axfr_loop_flags [of cb qid "read_timeout t" True t r0 rs0]
        ixfr_loop_flags [of cb qid "read_timeout t" "(0, True)" t r0 rs0]
      by (auto simp add: Cons inAxfr_def inIxfr_def)
    from flags_nth [OF bs assms(1)] show ?thesis by blast
  qed
  have 2: "tsigTimersOnly (session (run (r # rs))) = accepts r"
    using assms(2)
  proof
    assume "run = inAxfr cb t qid \<and> accepts = axfr_accepts cb t qid"
    then show ?thesis
      using axfr_loop_first_session [of cb qid "read_timeout t" True t r rs]
        axfr_body_first_flag [OF assms(1), of cb qid "read_timeout t" r]
      by (simp add: inAxfr_def)
  next
    assume "run = inIxfr cb t qid \<and> accepts = ixfr_accepts cb t qid"
    then show ?thesis
      using ixfr_loop_first_session [of cb qid "read_timeout t" "(0, True)" t r rs]
        ixfr_body_first_flag [OF assms(1), of cb qid "read_timeout t" 0 r]
      by (simp add: inIxfr_def del: ixfr_body.simps)
  qed
  have 3: "rs \<noteq> [] \<and> status (run rs) = Running \<longrightarrow> tsigTimersOnly (session (run rs))"
  proof (cases rs)
    case Nil
    then show ?thesis by simp
  next
    case (Cons r0 rs0)
    from assms(2) show ?thesis
      using axfr_loop_running_set [of cb qid "read_timeout t" True t r0 rs0]
        ixfr_loop_running_set [of cb qid "read_timeout t" "(0, True)" t r0 rs0]
      by (auto simp add: Cons inAxfr_def inIxfr_def simp del: ixfr_body.simps ixfr_loop.simps axfr_loop.simps)
  qed
  have 4: "tsigTimersOnly (session (run rs)) \<longrightarrow> tsigTimersOnly (session (run (rs @ rs')))"
    using assms(2) axfr_loop_later [of cb qid "read_timeout t" True t rs rs']
      ixfr_loop_later [of cb qid "read_timeout t" "(0, True)" t rs rs']
    by (auto simp add: inAxfr_def inIxfr_def)
  from 1 2 3 4 show ?thesis by (simp add: WriteMsg_flag In_flag)
qed

text \<open>
  The theorem at an AXFR transfer that has read \<open>[SOA]\<close> and \<open>[a]\<close> and then reads \<open>[a]\<close>
  again.
\<close>

theorem timers_only_flag_witness:
  "read_flags (trace (inAxfr (table_codec [answer_msg 7 [soa 1], answer_msg 7 [rec_a]])
        new_Transfer 7 [([0], None), ([1], None)])) ! 0 = False
   \<and> read_flags (trace (inAxfr (table_codec [answer_msg 7 [soa 1], answer_msg 7 [rec_a]])
        new_Transfer 7 [([0], None), ([1], None)])) ! 1 = True
   \<and> axfr_accepts (table_codec [answer_msg 7 [soa 1], answer_msg 7 [rec_a]]) new_Transfer 7
        ([0], None)
   \<and> tsigTimersOnly (session (inAxfr (table_codec [answer_msg 7 [soa 1], answer_msg 7 [rec_a]])
        new_Transfer 7 [([0], None), ([1], None)]))
   \<and> tsigTimersOnly (session (inAxfr (table_codec [answer_msg 7 [soa 1], answer_msg 7 [rec_a]])
        new_Transfer 7 ([([0], None), ([1], None)] @ [([1], None)])))"
proof -
  let ?C = "table_codec [answer_msg 7 [soa 1], answer_msg 7 [rec_a]]"
  let ?R = "[([0], None), ([1], None)] :: rawread list"
  have h1: "\<not> tsigTimersOnly new_Transfer" by (simp add: new_Transfer_def)
  have h2: "inAxfr ?C new_Transfer 7 = inAxfr ?C new_Transfer 7
              \<and> axfr_accepts ?C new_Transfer 7 = axfr_accepts ?C new_Transfer 7
            \<or> inAxfr ?C new_Transfer 7 = inIxfr ?C new_Transfer 7
              \<and> axfr_accepts ?C new_Transfer 7 = ixfr_accepts ?C new_Transfer 7" by simp
  have h3: "?R \<noteq> [] \<and> status (inAxfr ?C new_Transfer 7 ?R) = Running"
    by (simp add: inAxfr_def table_codec_def answer_msg_def ReadMsg_def axfr_body_def
        axfr_tail_def isSOAFirst_def isSOALast_def soa_def rec_a_def TypeSOA_def Let_def)
  have h4: "length (read_flags (trace (inAxfr ?C new_Transfer 7 ?R))) = 2"
    by (simp add: inAxfr_def table_codec_def answer_msg_def ReadMsg_def axfr_body_def
        axfr_tail_def isSOAFirst_def isSOALast_def soa_def rec_a_def TypeSOA_def Let_def)
  have h5: "axfr_accepts ?C new_Transfer 7 ([0], None)"
    by (simp add: axfr_accepts_def table_codec_def answer_msg_def ReadMsg_def isSOAFirst_def
        soa_def)
  from timers_only_flag [OF h1 h2, where rs = ?R and rs' = "[([1], None)]"] h3 h4 h5
  show ?thesis by simp
qed

text \<open>
  Claim C5 as stated has the flag become true after the first message, and false while
  the first reply of every transfer is read. IXFR's no-change reply, a single SOA, is
  sent and ends the transfer with the flag still false. And \<^verbatim>\<open>In\<close> does not reset the
  flag: a second transfer on the \<^verbatim>\<open>Transfer\<close> that has completed an AXFR transfer reads
  its first reply with the flag true.
\<close>

theorem timers_only_flag_counterexample:
  "sends (trace (inIxfr (table_codec [answer_msg 7 [soa 5]]) new_Transfer 7 [([0], None)]))
     = [\<lparr>RR = [soa 5], Error = None\<rparr>]
   \<and> \<not> tsigTimersOnly (session (inIxfr (table_codec [answer_msg 7 [soa 5]]) new_Transfer 7
                                  [([0], None)]))
   \<and> read_flags (trace (snd (transfer_in (table_codec [answer_msg 7 [soa 1, rec_a, soa 1]])
        (session (snd (transfer_in (table_codec [answer_msg 7 [soa 1, rec_a, soa 1]])
           new_Transfer (query 7 TypeAXFR) ''ns.example.:53'' None None [([0], None)])))
        (query 7 TypeAXFR) ''ns.example.:53'' None None [([0], None)]))) = [True]"
  by (simp add: inIxfr_def table_codec_def answer_msg_def ReadMsg_def isSOAFirst_def soa_def
      deferred_def new_Transfer_def Let_def
      transfer_in_def In_def WriteMsg_def write_out_def query_def
      select_machine_def run_task_def inAxfr_def read_timeout_def dnsTimeout_def
      axfr_body_def axfr_tail_def isSOALast_def
      rec_a_def TypeSOA_def TypeAXFR_def)

subsection \<open>Messages signed for an unknown zone\<close>

text \<open>
  Claim C6: when a message carries a TSIG record, the session has a secret table and the
  table has no entry for the TSIG's zone name, \<^verbatim>\<open>WriteMsg\<close> returns \<^verbatim>\<open>ErrSecret\<close>
  having written nothing and left the session (with its last MAC) as it was, and
  \<^verbatim>\<open>ReadMsg\<close> returns \<^verbatim>\<open>ErrSecret\<close> for every read that decodes to the message.
\<close>

theorem unknown_key:
  assumes "IsTsig cb m = Some name" and "TsigSecret t = Some secrets" and "secrets name = None"
  shows "WriteMsg cb t m wres = (t, Some ErrSecret, [])
         \<and> (Unpack cb p = Inr m \<and> (rerr = None \<or> p \<noteq> [])
              \<longrightarrow> ReadMsg cb t (p, rerr) = (Some m, Some ErrSecret))"
  using assms by (auto simp add: WriteMsg_def ReadMsg_def)

theorem unknown_key_witness:
  "WriteMsg (signed_codec (answer_msg 7 [soa 1]))
      (new_Transfer\<lparr>TsigSecret := Some [''other.'' \<mapsto> ''c2VjcmV0'']\<rparr>) (answer_msg 7 [soa 1]) None
     = (new_Transfer\<lparr>TsigSecret := Some [''other.'' \<mapsto> ''c2VjcmV0'']\<rparr>, Some ErrSecret, [])
   \<and> ReadMsg (signed_codec (answer_msg 7 [soa 1]))
        (new_Transfer\<lparr>TsigSecret := Some [''other.'' \<mapsto> ''c2VjcmV0'']\<rparr>) ([1], None)
     = (Some (answer_msg 7 [soa 1]), Some ErrSecret)"
proof -
  have h1: "IsTsig (signed_codec (answer_msg 7 [soa 1])) (answer_msg 7 [soa 1]) = Some ''example.''"
    by (simp add: signed_codec_def)
  have h2: "TsigSecret (new_Transfer\<lparr>TsigSecret := Some [''other.'' \<mapsto> ''c2VjcmV0'']\<rparr>)
              = Some [''other.'' \<mapsto> ''c2VjcmV0'']"
    by simp
  have h3: "[''other.'' \<mapsto> ''c2VjcmV0''] ''example.'' = None"
    by simp
  have h4: "Unpack (signed_codec (answer_msg 7 [soa 1])) [1] = Inr (answer_msg 7 [soa 1])"
    by (simp add: signed_codec_def)
  from unknown_key [OF h1 h2 h3, of None "[1]" None] h4 show ?thesis by simp
qed

subsection \<open>The outbound engine\<close>

lemma map_upt_Cons: "map f [0..<Suc n] = f 0 # map (\<lambda>i. f (Suc i)) [0..<n]"
proof -
  have "[0..<Suc n] = 0 # map Suc [0..<n]"
    by (simp add: upt_conv_Cons map_Suc_upt del: upt_Suc)
  then show ?thesis by (simp add: o_def del: upt_Suc)
qed

lemma reply_upto_shift:
  "reply_upto (r\<lparr>Answer := Answer r @ RR x\<rparr>) xs k = reply_upto r (x # xs) (Suc k)"
  by (simp add: reply_upto_def)

lemma out_loop_ok:
  "\<forall>j<length xs. wres (k + j) = None \<Longrightarrow>
   wtrace (out_loop wres k r xs closed)
     = map (\<lambda>i. WWriteMsg (reply_upto r xs i)) [0..<length xs]
       @ (if closed then [WTsigTimersOnly True] else [])
   \<and> wstatus (out_loop wres k r xs closed) = (if closed then Returned else Running)
   \<and> Answer (reply (out_loop wres k r xs closed))
       = (if closed then [] else Answer r @ concat (map RR xs))"
proof (induction xs arbitrary: k r)
  case Nil
  then show ?case by simp
next
  case (Cons x xs)
  from Cons.prems have w0: "wres k = None" by fastforce
  have rest: "\<forall>j<length xs. wres (Suc k + j) = None"
  proof (intro allI impI)
    fix j assume "j < length xs"
    then have "Suc j < length (x # xs)" by simp
    with Cons.prems have "wres (k + Suc j) = None" by blast
    then show "wres (Suc k + j) = None" by simp
  qed
  have first: "reply_upto r (x # xs) 0 = r\<lparr>Answer := Answer r @ RR x\<rparr>"
    by (simp add: reply_upto_def)
  have shift: "map (\<lambda>i. WWriteMsg (reply_upto r (x # xs) i)) [0..<length (x # xs)]
        = WWriteMsg (r\<lparr>Answer := Answer r @ RR x\<rparr>)
          # map (\<lambda>i. WWriteMsg (reply_upto (r\<lparr>Answer := Answer r @ RR x\<rparr>) xs i)) [0..<length xs]"
    by (simp add: map_upt_Cons first reply_upto_shift del: upt_Suc)
  from Cons.IH [OF rest, of "r\<lparr>Answer := Answer r @ RR x\<rparr>"] w0 show ?case
    by (simp only: shift) (simp add: Let_def)
qed

lemma out_loop_failure:
  "j < length xs \<Longrightarrow> wres (k + j) = Some e \<Longrightarrow> \<forall>i<j. wres (k + i) = None \<Longrightarrow>
   wtrace (out_loop wres k r xs closed) = map (\<lambda>i. WWriteMsg (reply_upto r xs i)) [0..<Suc j]
   \<and> wstatus (out_loop wres k r xs closed) = Returned
   \<and> reply (out_loop wres k r xs closed) = reply_upto r xs j"
proof (induction xs arbitrary: k r j)
  case Nil
  then show ?case by simp
next
  case (Cons x xs)
  have first: "reply_upto r (x # xs) 0 = r\<lparr>Answer := Answer r @ RR x\<rparr>"
    by (simp add: reply_upto_def)
  show ?case
  proof (cases j)
    case 0
    with Cons.prems show ?thesis by (simp add: first Let_def)
  next
    case (Suc j')
    with Cons.prems have w0: "wres k = None" by fastforce
    have a: "j' < length xs" using Cons.prems Suc by simp
    have b: "wres (Suc k + j') = Some e" using Cons.prems Suc by simp
    have c: "\<forall>i<j'. wres (Suc k + i) = None"
    proof (intro allI impI)
      fix i assume "i < j'"
      then have "Suc i < j" using Suc by simp
      with Cons.prems have "wres (k + Suc i) = None" by blast
      then show "wres (Suc k + i) = None" by simp
    qed
    have shift: "map (\<lambda>i. WWriteMsg (reply_upto r (x # xs) i)) [0..<Suc j]
        = WWriteMsg (r\<lparr>Answer := Answer r @ RR x\<rparr>)
          # map (\<lambda>i. WWriteMsg (reply_upto (r\<lparr>Answer := Answer r @ RR x\<rparr>) xs i)) [0..<Suc j']"
      unfolding Suc by (simp add: map_upt_Cons [of _ "Suc j'"] first reply_upto_shift del: upt_Suc)
    from Cons.IH [OF a b c, of "r\<lparr>Answer := Answer r @ RR x\<rparr>"] w0 show ?thesis
      by (simp only: shift) (simp add: Let_def reply_upto_shift Suc)
  qed
qed

lemma out_loop_no_close:
  "WClose \<notin> set (wtrace (out_loop wres k r xs closed))
   \<and> WHijack \<notin> set (wtrace (out_loop wres k r xs closed))"
  by (induction xs arbitrary: k r) (auto simp add: Let_def split: option.splits)

text \<open>
  Claim C7, as amended. \<^verbatim>\<open>Out\<close> returns nil and its task never closes or hijacks the
  writer. As long as every write succeeds, the task writes one message for each
  envelope, the \<open>k\<close>-th with the records of the envelopes up to the \<open>k\<close>-th as its answer
  section; when the producer then closes the source, the writer is switched to
  timers-only mode and the answer section is cleared. When the write for envelope \<open>j\<close> is
  the first to fail, the task stops there: the \<open>j + 1\<close> messages are all it wrote, the
  writer is not switched and the answer section is not cleared.
\<close>

theorem out_engine:
  "fst (Out wres q xs closed) = None
   \<and> WClose \<notin> set (wtrace (snd (Out wres q xs closed)))
   \<and> WHijack \<notin> set (wtrace (snd (Out wres q xs closed)))
   \<and> ((\<forall>k<length xs. wres k = None) \<longrightarrow>
        wtrace (snd (Out wres q xs closed))
          = map (\<lambda>k. WWriteMsg ((SetReply new_Msg q)
                   \<lparr>Authoritative := True, Answer := concat (map RR (take (Suc k) xs))\<rparr>))
              [0..<length xs]
            @ (if closed then [WTsigTimersOnly True] else [])
        \<and> (closed \<longrightarrow> Answer (reply (snd (Out wres q xs closed))) = []))
   \<and> (j < length xs \<and> wres j = Some e \<and> (\<forall>i<j. wres i = None) \<longrightarrow>
        wtrace (snd (Out wres q xs closed))
          = map (\<lambda>k. WWriteMsg ((SetReply new_Msg q)
                   \<lparr>Authoritative := True, Answer := concat (map RR (take (Suc k) xs))\<rparr>))
              [0..<Suc j]
        \<and> Answer (reply (snd (Out wres q xs closed))) = concat (map RR (take (Suc j) xs)))"
proof -
  let ?r = "(SetReply new_Msg q)\<lparr>Authoritative := True\<rparr>"
  have up: "\<And>k. reply_upto ?r xs k
      = (SetReply new_Msg q)\<lparr>Authoritative := True, Answer := concat (map RR (take (Suc k) xs))\<rparr>"
    by (simp add: reply_upto_def SetReply_def new_Msg_def)
  have ok: "(\<forall>k<length xs. wres k = None) \<longrightarrow>
        wtrace (out_loop wres 0 ?r xs closed)
          = map (\<lambda>k. WWriteMsg (reply_upto ?r xs k)) [0..<length xs]
            @ (if closed then [WTsigTimersOnly True] else [])
        \<and> (closed \<longrightarrow> Answer (reply (out_loop wres 0 ?r xs closed)) = [])"
  proof (intro impI)
    assume "\<forall>k<length xs. wres k = None"
    then have "\<forall>j<length xs. wres (0 + j) = None" by simp
    from out_loop_ok [OF this, of ?r closed] show
      "wtrace (out_loop wres 0 ?r xs closed)
          = map (\<lambda>k. WWriteMsg (reply_upto ?r xs k)) [0..<length xs]
            @ (if closed then [WTsigTimersOnly True] else [])
        \<and> (closed \<longrightarrow> Answer (reply (out_loop wres 0 ?r xs closed)) = [])"
      by (cases closed) simp_all
  qed
  have bad: "j < length xs \<and> wres j = Some e \<and> (\<forall>i<j. wres i = None) \<longrightarrow>
        wtrace (out_loop wres 0 ?r xs closed)
          = map (\<lambda>k. WWriteMsg (reply_upto ?r xs k)) [0..<Suc j]
        \<and> reply (out_loop wres 0 ?r xs closed) = reply_upto ?r xs j"
  proof (intro impI)
    assume a: "j < length xs \<and> wres j = Some e \<and> (\<forall>i<j. wres i = None)"
    then have 1: "j < length xs" and 2: "wres (0 + j) = Some e"
      and 3: "\<forall>i<j. wres (0 + i) = None" by simp_all
    from out_loop_failure [OF 1 2 3, of ?r closed] show
      "wtrace (out_loop wres 0 ?r xs closed)
          = map (\<lambda>k. WWriteMsg (reply_upto ?r xs k)) [0..<Suc j]
        \<and> reply (out_loop wres 0 ?r xs closed) = reply_upto ?r xs j"
      by simp
  qed
  from ok bad out_loop_no_close [of wres 0 ?r xs closed] show ?thesis
    by (simp add: Out_def Let_def up)
qed

theorem out_engine_witness:
  "wtrace (snd (Out (\<lambda>k. None) (query 7 TypeAXFR)
                  [\<lparr>RR = [soa 1], Error = None\<rparr>, \<lparr>RR = [rec_a, soa 1], Error = None\<rparr>] True))
     = [WWriteMsg ((SetReply new_Msg (query 7 TypeAXFR))
                     \<lparr>Authoritative := True, Answer := [soa 1]\<rparr>),
        WWriteMsg ((SetReply new_Msg (query 7 TypeAXFR))
                     \<lparr>Authoritative := True, Answer := [soa 1, rec_a, soa 1]\<rparr>),
        WTsigTimersOnly True]
   \<and> Answer (reply (snd (Out (\<lambda>k. None) (query 7 TypeAXFR)
                  [\<lparr>RR = [soa 1], Error = None\<rparr>, \<lparr>RR = [rec_a, soa 1], Error = None\<rparr>] True)))
     = []"
proof -
  let ?xs = "[\<lparr>RR = [soa 1], Error = None\<rparr>, \<lparr>RR = [rec_a, soa 1], Error = None\<rparr>]"
  have h: "\<forall>k<length ?xs. (\<lambda>k. None :: error option) k = None" by simp
  from out_engine [of "\<lambda>k. None" "query 7 TypeAXFR" ?xs True] h show ?thesis
    by (simp add: upt_conv_Cons del: upt_Suc)
qed

text \<open>
  Claim C7 as stated has the writer switched and the buffer cleared whenever the source
  is closed. With one envelope whose write fails, and the source then closed, the only
  call on the writer is that write and the answer section keeps its records.
\<close>

theorem out_engine_counterexample:
  "wtrace (snd (Out (\<lambda>k. Some (ErrExt ''broken pipe'')) (query 7 TypeAXFR)
                  [\<lparr>RR = [soa 1, rec_a, soa 1], Error = None\<rparr>] True))
     = [WWriteMsg ((SetReply new_Msg (query 7 TypeAXFR))
                     \<lparr>Authoritative := True, Answer := [soa 1, rec_a, soa 1]\<rparr>)]
   \<and> Answer (reply (snd (Out (\<lambda>k. Some (ErrExt ''broken pipe'')) (query 7 TypeAXFR)
                  [\<lparr>RR = [soa 1, rec_a, soa 1], Error = None\<rparr>] True)))
     = [soa 1, rec_a, soa 1]"
  by (simp add: Out_def SetReply_def new_Msg_def Let_def)

subsection \<open>Deadlines\<close>

text \<open>
  Claim C8 has a deadline from \<^verbatim>\<open>WriteTimeout\<close> set before every write, as one from
  \<^verbatim>\<open>ReadTimeout\<close> is set before every read. No inbound transfer ever sets a write
  deadline; in an AXFR transfer with \<^verbatim>\<open>WriteTimeout\<close> at five seconds the query is
  written right after the dial, while the read that follows has its deadline set.
\<close>

theorem no_write_deadline:
  "write_deadlines (trace (snd (transfer_in cb t q a dial wres rs))) = []
   \<and> trace (snd (transfer_in (table_codec [answer_msg 7 [soa 1, rec_a, soa 1]])
        (new_Transfer\<lparr>WriteTimeout := 5000000000\<rparr>) (query 7 TypeAXFR) ''ns.example.:53''
        None None [([0], None)]))
     = [EvDial ''ns.example.:53'' 2000000000, EvWrite [7],
        EvSetReadDeadline 2000000000, EvReadMsg False,
        EvSend \<lparr>RR = [soa 1, rec_a, soa 1], Error = None\<rparr>, EvCloseChan, EvCloseConn]"
  by (simp add: transfer_in_wdl)
    (simp add: transfer_in_def In_def WriteMsg_def write_out_def table_codec_def query_def
      select_machine_def run_task_def inAxfr_def read_timeout_def new_Transfer_def dnsTimeout_def
      axfr_body_def axfr_tail_def ReadMsg_def answer_msg_def isSOAFirst_def isSOALast_def
      soa_def rec_a_def TypeSOA_def TypeAXFR_def deferred_def Let_def)

subsection \<open>Signed messages read back\<close>

text \<open>
  Claim C9. Let a message carry a TSIG record for a zone that has a secret, let the
  primitives keep their contract for this message under the session's chain state, and
  let \<^verbatim>\<open>WriteMsg\<close> succeed. Then it wrote one frame, and \<^verbatim>\<open>ReadMsg\<close> on that frame, in
  a session with the same secrets, last MAC and flag as the writer had, returns a message
  with the same answer section and a nil error.
\<close>

theorem tsig_round_trip:
  assumes "IsTsig cb m = Some name" and "TsigSecret t = Some secrets"
    and "secrets name = Some secret"
    and "tsig_contract cb m secret (tsigRequestMAC t) (tsigTimersOnly t)"
    and "WriteMsg cb t m None = (t', None, evs)"
    and "TsigSecret tr = TsigSecret t" and "tsigRequestMAC tr = tsigRequestMAC t"
    and "tsigTimersOnly tr = tsigTimersOnly t"
  shows "\<exists>out m'. evs = [EvWrite out] \<and> ReadMsg cb tr (out, None) = (Some m', None)
                  \<and> Answer m' = Answer m"
proof -
  obtain out mac' err where
    gen: "TsigGenerate cb m secret (tsigRequestMAC t) (tsigTimersOnly t) = (out, mac', err)"
    by (cases "TsigGenerate cb m secret (tsigRequestMAC t) (tsigTimersOnly t)")
  from assms(1-3,5) gen have err: "err = None" and evs: "evs = [EvWrite out]"
    by (auto simp add: WriteMsg_def write_out_def split: option.splits)
  from assms(4) gen err obtain m' where
    ver: "TsigVerify cb out secret (tsigRequestMAC t) (tsigTimersOnly t) = None"
    and dec: "Unpack cb out = Inr m'" and ts: "IsTsig cb m' = IsTsig cb m"
    and ans: "Answer m' = Answer m"
    by (auto simp add: tsig_contract_def split: sum.splits)
  have "ReadMsg cb tr (out, None) = (Some m', None)"
    using assms(1-3,6-8) ver dec ts by (simp add: ReadMsg_def)
  with evs ans show ?thesis by blast
qed

theorem tsig_round_trip_witness:
  "\<exists>out m'. [EvWrite [1]] = [EvWrite out]
     \<and> ReadMsg (signed_codec (answer_msg 7 [soa 1]))
          (new_Transfer\<lparr>TsigSecret := Some [''example.'' \<mapsto> ''c2VjcmV0'']\<rparr>) (out, None)
        = (Some m', None)
     \<and> Answer m' = Answer (answer_msg 7 [soa 1])"
proof -
  let ?C = "signed_codec (answer_msg 7 [soa 1])"
  let ?T = "new_Transfer\<lparr>TsigSecret := Some [''example.'' \<mapsto> ''c2VjcmV0'']\<rparr>"
  have h1: "IsTsig ?C (answer_msg 7 [soa 1]) = Some ''example.''"
    by (simp add: signed_codec_def)
  have h2: "TsigSecret ?T = Some [''example.'' \<mapsto> ''c2VjcmV0'']" by simp
  have h3: "[''example.'' \<mapsto> ''c2VjcmV0''] ''example.'' = Some ''c2VjcmV0''" by simp
  have h4: "tsig_contract ?C (answer_msg 7 [soa 1]) ''c2VjcmV0'' (tsigRequestMAC ?T)
              (tsigTimersOnly ?T)"
    by (simp add: tsig_contract_def signed_codec_def new_Transfer_def)
  have h5: "WriteMsg ?C ?T (answer_msg 7 [soa 1]) None
              = (?T\<lparr>tsigRequestMAC := ''mac1''\<rparr>, None, [EvWrite [1]])"
    by (simp add: WriteMsg_def write_out_def signed_codec_def new_Transfer_def)
  from tsig_round_trip [OF h1 h2 h3 h4 h5 refl refl refl] show ?thesis .
qed

subsection \<open>A query that is neither AXFR nor IXFR\<close>

text \<open>
  Claim C10: when the type of the query's question is neither AXFR nor IXFR and the dial
  and the write of the query succeed, \<^verbatim>\<open>In\<close> returns a channel and a nil error, starts
  neither state machine, and whatever the connection would deliver, nothing is read,
  no envelope is sent, and neither the channel nor the connection is closed.
\<close>

theorem no_machine:
  assumes "Question q = q0 # qs" and "Qtype q0 \<noteq> TypeAXFR" and "Qtype q0 \<noteq> TypeIXFR"
    and "WriteMsg cb (t\<lparr>tsigRequestMAC := []\<rparr>) q wres = (t1, None, evs)"
  shows "in_err (In cb t q a None wres) = None
         \<and> in_env (In cb t q a None wres)
         \<and> in_task (In cb t q a None wres) = NoMachine
         \<and> sends (trace (snd (transfer_in cb t q a None wres rs))) = []
         \<and> read_flags (trace (snd (transfer_in cb t q a None wres rs))) = []
         \<and> closes (trace (snd (transfer_in cb t q a None wres rs))) = []"
proof -
  have evs: "evs = [] \<or> (\<exists>out. evs = [EvWrite out])"
    using assms(4)
    by (auto simp add: WriteMsg_def write_out_def split: option.splits prod.splits)
  have r: "In cb t q a None wres =
      \<lparr>in_session = t1, in_env = True, in_err = None,
       in_trace = EvDial a (if DialTimeout t \<noteq> 0 then DialTimeout t else dnsTimeout) # evs,
       in_task = NoMachine\<rparr>"
    using assms by (simp add: In_def select_machine_def Let_def)
  show ?thesis using evs
    by (auto simp add: r transfer_in_def run_task_def Let_def closes_def)
qed

theorem no_machine_witness:
  "in_err (In (table_codec []) new_Transfer (query 7 TypeSOA) ''ns.example.:53'' None None) = None
   \<and> in_env (In (table_codec []) new_Transfer (query 7 TypeSOA) ''ns.example.:53'' None None)
   \<and> in_task (In (table_codec []) new_Transfer (query 7 TypeSOA) ''ns.example.:53'' None None)
       = NoMachine
   \<and> sends (trace (snd (transfer_in (table_codec []) new_Transfer (query 7 TypeSOA)
        ''ns.example.:53'' None None [([0], None)]))) = []
   \<and> read_flags (trace (snd (transfer_in (table_codec []) new_Transfer (query 7 TypeSOA)
        ''ns.example.:53'' None None [([0], None)]))) = []
   \<and> closes (trace (snd (transfer_in (table_codec []) new_Transfer (query 7 TypeSOA)
        ''ns.example.:53'' None None [([0], None)]))) = []"
proof -
  have h1: "Question (query 7 TypeSOA) = \<lparr>Qname = ''example.'', Qtype = TypeSOA\<rparr> # []"
    by (simp add: query_def)
  have h2: "Qtype \<lparr>Qname = ''example.'', Qtype = TypeSOA\<rparr> \<noteq> TypeAXFR"
    by (simp add: TypeSOA_def TypeAXFR_def)
  have h3: "Qtype \<lparr>Qname = ''example.'', Qtype = TypeSOA\<rparr> \<noteq> TypeIXFR"
    by (simp add: TypeSOA_def TypeIXFR_def)
  have h4: "WriteMsg (table_codec []) (new_Transfer\<lparr>tsigRequestMAC := []\<rparr>) (query 7 TypeSOA) None
              = (new_Transfer, None, [EvWrite [7]])"
    by (simp add: WriteMsg_def write_out_def table_codec_def query_def new_Transfer_def)
  from no_machine [OF h1 h2 h3 h4] show ?thesis .
qed

end
